theory Spec2Isabelle
  imports Main "HOL-Library.AList"
begin

section \<open>Stateless presence of a ShareDB document\<close>

text \<open>
  The module under verification is the mixin of fourteen functions that a client-side
  document uses for presence (\<^verbatim>\<open>submitPresence\<close>, \<^verbatim>\<open>_handlePresence\<close>,
  \<^verbatim>\<open>_processReceivedPresence\<close>, ...). Every function runs with \<^verbatim>\<open>this\<close> bound to the
  document, so the embedding passes the document explicitly and returns the updated one.

  Conventions of the embedding:
  \<^item> a JavaScript value that may be \<^verbatim>\<open>null\<close> or \<^verbatim>\<open>undefined\<close> is an \<open>option\<close>;
    \<open>None\<close> stands for both, which the source never tells apart (it tests with
    \<^verbatim>\<open>== null\<close>, \<^verbatim>\<open>!= null\<close> or truthiness);
  \<^item> presence payloads \<open>'p\<close>, operation payloads \<open>'o\<close> and continuations \<open>'c\<close> are
    opaque; equality on \<open>'p\<close> is the identity test \<^verbatim>\<open>===\<close> of the source;
  \<^item> objects used as dictionaries (\<^verbatim>\<open>current\<close>, \<^verbatim>\<open>received\<close>) are association lists
    in insertion order, which is the order \<^verbatim>\<open>Object.keys\<close> enumerates string keys
    that are not array indices;
  \<^item> a leading underscore is not part of an Isabelle name: \<^verbatim>\<open>_setPresence\<close> is
    \<open>setPresence\<close>, and so on; the fields \<^verbatim>\<open>type\<close> and \<^verbatim>\<open>id\<close> of the document are
    \<open>doc_type\<close> and \<open>doc_id\<close>; the fields of a received envelope carry the prefix
    \<open>e_\<close> and those of an operation the prefix \<open>o_\<close>;
  \<^item> \<^verbatim>\<open>Date.now()\<close> and \<^verbatim>\<open>connection.seq\<close> are read from the environment; the
    functions that read them take the value read as an argument (\<open>now\<close>, \<open>cseq\<close>);
  \<^item> \<^verbatim>\<open>process.nextTick\<close> appends a task to the queue \<open>ticks\<close> of the document;
    what the task does when the event loop runs it is \<open>runTask\<close>;
  \<^item> everything the module does to the outside (events emitted on the document,
    continuations invoked, messages handed to the connection, fetch requests) is
    appended to the log \<open>effects\<close>;
  \<^item> dereferencing \<^verbatim>\<open>this.presence\<close> or \<^verbatim>\<open>this.type\<close> when it is absent, or calling
    a capability the type does not have, throws a \<^verbatim>\<open>TypeError\<close>: a function returns
    \<open>Throws\<close> with the state reached so far;
  \<^item> the capabilities of the type are functions of their arguments that return; a
    continuation or a listener is not run by the embedding, its invocation is logged;
  \<^item> source identifiers are not names of properties that every object inherits, so
    that a key is in a dictionary only after it was stored there;
  \<^item> versions, sequence numbers and timestamps are integers.
\<close>

subsection \<open>Data\<close>

datatype error = TypeError | ShareDBError int string

text \<open>The capabilities of the document's OT type; each is optional.\<close>

record ('p, 'o) ot_type =
  createPresence :: "('p \<Rightarrow> 'p option) option"
  transformPresence :: "('p option \<Rightarrow> 'o option \<Rightarrow> bool \<Rightarrow> 'p option) option"
  comparePresence :: "('p option \<Rightarrow> 'p \<Rightarrow> bool) option"

text \<open>An operation: \<^verbatim>\<open>{op, src, time}\<close>; \<^verbatim>\<open>op == null\<close> for a create or a delete.\<close>

record 'o operation =
  o_op :: "'o option"
  o_src :: "string option"
  o_time :: int

text \<open>A presence message: \<^verbatim>\<open>{src, seq, v, p, r}\<close>, and \<^verbatim>\<open>processedAt\<close> once stored
  and reconciled.\<close>

record 'p envelope =
  e_src :: "string option"
  e_seq :: int
  e_v :: "int option"
  e_p :: "'p option"
  e_r :: bool
  processedAt :: "int option"

record ('p, 'o, 'c) presence_state =
  current :: "(string \<times> 'p) list"
  received :: "(string \<times> 'p envelope) list"
  receivedTimeout :: int
  requestReply :: bool
  cachedOps :: "'o operation list"
  cachedOpsTimeout :: int
  inflightSeq :: int
  pending :: "'c list option"
  inflight :: "'c list option"

text \<open>The closures handed to \<^verbatim>\<open>process.nextTick\<close>, one constructor per closure of the
  source, with the variables the closure captures.\<close>

datatype 'c task =
    NotCreatedTask "'c option"
  | UnsupportedTask "'c option"
  | CallbackTask 'c
  | FlushTask
  | EmitPresenceTask "string list" bool

datatype ('p, 'c) effect =
    EmitError error
  | EmitPresence "string list" bool
  | EmitNothingPending
  | Call 'c "error option"
  | SendPresence "'p option" bool
  | Fetch

text \<open>The document, as far as the module reads or writes it. \<open>hasWritePending\<close> is the
  value the document's predicate of that name returns.\<close>

record ('p, 'o, 'c) doc =
  collection :: string
  doc_id :: string
  doc_type :: "('p, 'o) ot_type option"
  version :: "int option"
  subscribed :: bool
  inflightOp :: "'o operation option"
  pendingOps :: "'o operation list"
  hasWritePending :: bool
  presence :: "('p, 'o, 'c) presence_state option"
  ticks :: "'c task list"
  effects :: "('p, 'c) effect list"

datatype ('a, 's) outcome = Returns 'a 's | Throws error 's

fun final :: "('a, 's) outcome \<Rightarrow> 's" where
  "final (Returns x s) = s"
| "final (Throws e s) = s"

fun returned :: "('a, 's) outcome \<Rightarrow> 'a option" where
  "returned (Returns x s) = Some x"
| "returned (Throws e s) = None"

text \<open>\<^verbatim>\<open>ToNumber\<close> of a version that may be \<^verbatim>\<open>null\<close>, as the comparison and the
  subtraction of \<^verbatim>\<open>_processReceivedPresence\<close> coerce it.\<close>

definition toNumber :: "int option \<Rightarrow> int" where
  "toNumber x = (case x of None \<Rightarrow> 0 | Some n \<Rightarrow> n)"

subsection \<open>Initial state\<close>

definition initializePresence :: "('p, 'o, 'c) presence_state" where
  "initializePresence =
     \<lparr> current = [], received = [], receivedTimeout = 60000, requestReply = True,
       cachedOps = [], cachedOpsTimeout = 60000, inflightSeq = 0,
       pending = None, inflight = None \<rparr>"

subsection \<open>Sequencing\<close>

text \<open>An exception raised by a callee leaves the caller at once, with the state the
  callee had reached.\<close>

definition andThen ::
  "('a, 's) outcome \<Rightarrow> ('a \<Rightarrow> 's \<Rightarrow> ('b, 's) outcome) \<Rightarrow> ('b, 's) outcome" where
  "andThen m f = (case m of Returns x s \<Rightarrow> f x s | Throws e s \<Rightarrow> Throws e s)"

subsection \<open>Notification and the set-presence primitive\<close>

definition emitPresence ::
  "string list \<Rightarrow> bool \<Rightarrow> ('p, 'o, 'c) doc \<Rightarrow> ('p, 'o, 'c) doc" where
  "emitPresence srcList submitted d =
     (if srcList \<noteq> [] then d\<lparr>ticks := ticks d @ [EmitPresenceTask srcList submitted]\<rparr>
      else d)"

definition setPresence ::
  "string \<Rightarrow> 'p option \<Rightarrow> bool \<Rightarrow> ('p, 'o, 'c) doc \<Rightarrow> (bool, ('p, 'o, 'c) doc) outcome" where
  "setPresence src data emit d =
     (case presence d of
        None \<Rightarrow> Throws TypeError d
      | Some ps \<Rightarrow>
          (case data of
             None \<Rightarrow>
               if map_of (current ps) src = None then Returns False d
               else
                 let d1 = d\<lparr>presence := Some (ps\<lparr>current := AList.delete src (current ps)\<rparr>)\<rparr>
                 in Returns True (if emit then emitPresence [src] True d1 else d1)
           | Some x \<Rightarrow>
               if map_of (current ps) src = Some x then Returns False d
               else
                 (case doc_type d of
                    None \<Rightarrow> Throws TypeError d
                  | Some t \<Rightarrow>
                      if (case comparePresence t of
                            None \<Rightarrow> False
                          | Some cmp \<Rightarrow> cmp (map_of (current ps) src) x)
                      then Returns False d
                      else
                        let d1 = d\<lparr>presence :=
                                   Some (ps\<lparr>current := AList.update src x (current ps)\<rparr>)\<rparr>
                        in Returns True (if emit then emitPresence [src] True d1 else d1))))"

subsection \<open>Submission and the flush handshake\<close>

definition flush :: "int \<Rightarrow> ('p, 'o, 'c) doc \<Rightarrow> (unit, ('p, 'o, 'c) doc) outcome" where
  "flush cseq d =
     (if subscribed d then
        (case presence d of
           None \<Rightarrow> Throws TypeError d
         | Some ps \<Rightarrow>
             if inflight ps = None \<and> pending ps \<noteq> None \<and> \<not> hasWritePending d then
               Returns ()
                 (d\<lparr>presence := Some (ps\<lparr>inflight := pending ps, inflightSeq := cseq,
                                           pending := None, requestReply := False\<rparr>),
                    effects := effects d @
                      [SendPresence (map_of (current ps) []) (requestReply ps)]\<rparr>)
             else Returns () d)
      else Returns () d)"

text \<open>Lines 40 to 52 of \<^verbatim>\<open>submitPresence\<close>: what it does once \<open>data\<close> is \<^verbatim>\<open>null\<close> or
  has been normalised.\<close>

definition submitNormalized ::
  "'p option \<Rightarrow> 'c option \<Rightarrow> ('p, 'o, 'c) doc \<Rightarrow> (unit, ('p, 'o, 'c) doc) outcome" where
  "submitNormalized data callback d =
     andThen (setPresence [] data True d) (\<lambda>changed d1.
       case presence d1 of
         None \<Rightarrow> Throws TypeError d1
       | Some ps \<Rightarrow>
           let d2 =
             (if changed \<or> pending ps \<noteq> None \<or> inflight ps \<noteq> None then
                d1\<lparr>presence := Some (ps\<lparr>pending :=
                      Some ((case pending ps of None \<Rightarrow> [] | Some q \<Rightarrow> q) @
                            (case callback of None \<Rightarrow> [] | Some c \<Rightarrow> [c]))\<rparr>)\<rparr>
              else
                (case callback of
                   None \<Rightarrow> d1
                 | Some c \<Rightarrow> d1\<lparr>ticks := ticks d1 @ [CallbackTask c]\<rparr>))
           in Returns () (d2\<lparr>ticks := ticks d2 @ [FlushTask]\<rparr>))"

definition submitPresence ::
  "'p option \<Rightarrow> 'c option \<Rightarrow> ('p, 'o, 'c) doc \<Rightarrow> (unit, ('p, 'o, 'c) doc) outcome" where
  "submitPresence data callback d =
     (case data of
        None \<Rightarrow> submitNormalized None callback d
      | Some x \<Rightarrow>
          (case doc_type d of
             None \<Rightarrow> Returns () (d\<lparr>ticks := ticks d @ [NotCreatedTask callback]\<rparr>)
           | Some t \<Rightarrow>
               (case createPresence t of
                  None \<Rightarrow> Returns () (d\<lparr>ticks := ticks d @ [UnsupportedTask callback]\<rparr>)
                | Some cp \<Rightarrow>
                    if transformPresence t = None then
                      Returns () (d\<lparr>ticks := ticks d @ [UnsupportedTask callback]\<rparr>)
                    else submitNormalized (cp x) callback d)))"

text \<open>The two errors of \<^verbatim>\<open>submitPresence\<close>; the closure builds them when it runs.\<close>

definition notCreatedError :: "('p, 'o, 'c) doc \<Rightarrow> error" where
  "notCreatedError d =
     ShareDBError 4015
       (''Cannot submit presence. Document has not been created. '' @
        collection d @ ''.'' @ doc_id d)"

definition unsupportedTypeError :: "('p, 'o, 'c) doc \<Rightarrow> error" where
  "unsupportedTypeError d =
     ShareDBError 4027
       (''Cannot submit presence. Document'' @ [CHR 0x27] @
        ''s type does not support presence. '' @ collection d @ ''.'' @ doc_id d)"

definition report :: "error \<Rightarrow> 'c option \<Rightarrow> ('p, 'o, 'c) doc \<Rightarrow> ('p, 'o, 'c) doc" where
  "report err callback d =
     (case callback of
        Some c \<Rightarrow> d\<lparr>effects := effects d @ [Call c (Some err)]\<rparr>
      | None \<Rightarrow> d\<lparr>effects := effects d @ [EmitError err]\<rparr>)"

text \<open>What the event loop does when it runs a task of the queue.\<close>

definition runTask ::
  "int \<Rightarrow> 'c task \<Rightarrow> ('p, 'o, 'c) doc \<Rightarrow> (unit, ('p, 'o, 'c) doc) outcome" where
  "runTask cseq t d =
     (case t of
        NotCreatedTask callback \<Rightarrow> Returns () (report (notCreatedError d) callback d)
      | UnsupportedTask callback \<Rightarrow> Returns () (report (unsupportedTypeError d) callback d)
      | CallbackTask c \<Rightarrow> Returns () (d\<lparr>effects := effects d @ [Call c None]\<rparr>)
      | FlushTask \<Rightarrow> flush cseq d
      | EmitPresenceTask srcList submitted \<Rightarrow>
          Returns () (d\<lparr>effects := effects d @ [EmitPresence srcList submitted]\<rparr>))"

subsection \<open>Reconciliation of a received entry\<close>

text \<open>\<^verbatim>\<open>presence.processedAt = Date.now()\<close>, where \<^verbatim>\<open>presence\<close> is the object stored at
  \<^verbatim>\<open>received[src]\<close>: the assignment changes the stored entry.\<close>

definition markProcessed :: "string \<Rightarrow> int \<Rightarrow> ('p, 'o, 'c) doc \<Rightarrow> ('p, 'o, 'c) doc" where
  "markProcessed src now d =
     (case presence d of
        None \<Rightarrow> d
      | Some ps \<Rightarrow>
          (case map_of (received ps) src of
             None \<Rightarrow> d
           | Some e \<Rightarrow>
               d\<lparr>presence := Some (ps\<lparr>received :=
                    AList.update src (e\<lparr>processedAt := Some now\<rparr>) (received ps)\<rparr>)\<rparr>))"

text \<open>The three lines every rejecting branch repeats: mark the entry, clear the presence.\<close>

definition rejectReceived ::
  "string \<Rightarrow> bool \<Rightarrow> int \<Rightarrow> ('p, 'o, 'c) doc \<Rightarrow> (bool, ('p, 'o, 'c) doc) outcome" where
  "rejectReceived src emit now d = setPresence src None emit (markProcessed src now d)"

text \<open>The loops \<^verbatim>\<open>for (i = ...; i < ops.length; i++) if (ops[i].op == null) return ...\<close>.\<close>

function anyNullOp :: "nat \<Rightarrow> 'o operation list \<Rightarrow> bool" where
  "anyNullOp i ops =
     (if i < length ops then (if o_op (ops ! i) = None then True else anyNullOp (i + 1) ops)
      else False)"
  by pat_completeness auto
termination
  by (relation "measure (\<lambda>(i, ops). length ops - i)") auto

text \<open>The loops \<^verbatim>\<open>for (i = ...; i < ops.length; i++) data = transformPresence(data, ops[i].op, own)\<close>;
  \<open>own\<close> computes the ownership flag from the operation.\<close>

function transformLoop ::
  "('p option \<Rightarrow> 'o option \<Rightarrow> bool \<Rightarrow> 'p option) \<Rightarrow> ('o operation \<Rightarrow> bool) \<Rightarrow>
     'o operation list \<Rightarrow> nat \<Rightarrow> 'p option \<Rightarrow> 'p option" where
  "transformLoop tp own ops i data =
     (if i < length ops then
        transformLoop tp own ops (i + 1) (tp data (o_op (ops ! i)) (own (ops ! i)))
      else data)"
  by pat_completeness auto
termination
  by (relation "measure (\<lambda>(tp, own, ops, i, data). length ops - i)") auto

definition processReceivedPresence ::
  "string \<Rightarrow> bool \<Rightarrow> int \<Rightarrow> ('p, 'o, 'c) doc \<Rightarrow> (bool, ('p, 'o, 'c) doc) outcome" where
  "processReceivedPresence src emit now d =
     (if src = [] then Returns False d
      else
        case presence d of
          None \<Rightarrow> Throws TypeError d
        | Some ps \<Rightarrow>
        case map_of (received ps) src of
          None \<Rightarrow> Returns False d
        | Some e \<Rightarrow>
        case processedAt e of
          Some t \<Rightarrow>
            if now \<ge> t + receivedTimeout ps then
              Returns False
                (d\<lparr>presence := Some (ps\<lparr>received := AList.delete src (received ps)\<rparr>)\<rparr>)
            else Returns False d
        | None \<Rightarrow>
        case version d of
          None \<Rightarrow> Returns False d
        | Some ver \<Rightarrow>
        if ver < toNumber (e_v e) then Returns False d
        else
        case e_p e of
          None \<Rightarrow> rejectReceived src emit now d
        | Some payload \<Rightarrow>
        case doc_type d of
          None \<Rightarrow> rejectReceived src emit now d
        | Some t \<Rightarrow>
        case createPresence t of
          None \<Rightarrow> rejectReceived src emit now d
        | Some cp \<Rightarrow>
        case transformPresence t of
          None \<Rightarrow> rejectReceived src emit now d
        | Some tp \<Rightarrow>
        if (case inflightOp d of None \<Rightarrow> False | Some io \<Rightarrow> o_op io = None) then
          rejectReceived src emit now d
        else if anyNullOp 0 (pendingOps d) then rejectReceived src emit now d
        else
          let startIndex = int (length (cachedOps ps)) - (ver - toNumber (e_v e)) in
          if startIndex < 0 then rejectReceived src emit now d
          else if anyNullOp (nat startIndex) (cachedOps ps) then rejectReceived src emit now d
          else
            let data0 = cp payload;
                data1 = transformLoop tp (\<lambda>c. e_src e = o_src c) (cachedOps ps)
                          (nat startIndex) data0;
                data2 = (case inflightOp d of
                           None \<Rightarrow> data1
                         | Some io \<Rightarrow> tp data1 (o_op io) False);
                data3 = transformLoop tp (\<lambda>c. False) (pendingOps d) 0 data2
            in setPresence src data3 emit (markProcessed src now d))"

fun processEach ::
  "int \<Rightarrow> string list \<Rightarrow> string list \<Rightarrow> ('p, 'o, 'c) doc \<Rightarrow>
     (string list, ('p, 'o, 'c) doc) outcome" where
  "processEach now [] changedSrcList d = Returns changedSrcList d"
| "processEach now (src # srcList) changedSrcList d =
     andThen (processReceivedPresence src False now d) (\<lambda>changed d1.
       processEach now srcList
         (if changed then changedSrcList @ [src] else changedSrcList) d1)"

text \<open>One pass over the keys of \<^verbatim>\<open>received\<close>, as they were when the pass started. The
  pass is synchronous; \<open>now\<close> is the clock reading during the pass.\<close>

definition processAllReceivedPresence ::
  "int \<Rightarrow> ('p, 'o, 'c) doc \<Rightarrow> (unit, ('p, 'o, 'c) doc) outcome" where
  "processAllReceivedPresence now d =
     (case presence d of
        None \<Rightarrow> Returns () d
      | Some ps \<Rightarrow>
          andThen (processEach now (map fst (received ps)) [] d) (\<lambda>changedSrcList d1.
            Returns () (emitPresence changedSrcList True d1)))"

subsection \<open>Inbound messages\<close>

text \<open>Modelled from the spec: \<^verbatim>\<open>_callEach\<close> is a method of the document that this module
  calls and does not define. The spec: on an acknowledgment the continuations of the
  inflight batch ``are invoked with any carried error'', and the error is surfaced as a
  standalone signal when ``no continuations were present''. So every continuation of the
  batch is invoked with the error, in order, and the result tells whether any was.\<close>

definition callEach ::
  "'c list \<Rightarrow> error option \<Rightarrow> ('p, 'o, 'c) doc \<Rightarrow> bool \<times> ('p, 'o, 'c) doc" where
  "callEach callbacks err d =
     (callbacks \<noteq> [], d\<lparr>effects := effects d @ map (\<lambda>c. Call c err) callbacks\<rparr>)"

text \<open>Modelled from the spec: \<^verbatim>\<open>_emitNothingPending\<close> is a method of the document that
  this module calls and does not define. The spec: ``a "no pending work" notification is
  emitted if applicable''; it is taken to apply when the document has no write pending.\<close>

definition emitNothingPending :: "('p, 'o, 'c) doc \<Rightarrow> ('p, 'o, 'c) doc" where
  "emitNothingPending d =
     (if hasWritePending d then d else d\<lparr>effects := effects d @ [EmitNothingPending]\<rparr>)"

text \<open>The branch of \<^verbatim>\<open>_handlePresence\<close> for a message without a source: the
  acknowledgment of the presence this client sent.\<close>

definition handleAck ::
  "error option \<Rightarrow> 'p envelope \<Rightarrow> int \<Rightarrow> ('p, 'o, 'c) doc \<Rightarrow>
     (unit, ('p, 'o, 'c) doc) outcome" where
  "handleAck err msg cseq d =
     (case presence d of
        None \<Rightarrow> Throws TypeError d
      | Some ps \<Rightarrow>
          if inflightSeq ps = e_seq msg then
            let callbacks = inflight ps;
                d1 = d\<lparr>presence := Some (ps\<lparr>inflight := None, inflightSeq := 0\<rparr>)\<rparr>;
                (called, d2) = (case callbacks of
                                  None \<Rightarrow> (False, d1)
                                | Some cbs \<Rightarrow> callEach cbs err d1);
                d3 = (case err of
                        None \<Rightarrow> d2
                      | Some e \<Rightarrow>
                          if \<not> called then d2\<lparr>effects := effects d2 @ [EmitError e]\<rparr> else d2)
            in andThen (flush cseq d3) (\<lambda>u d4. Returns () (emitNothingPending d4))
          else Returns () d)"

text \<open>The rest of \<^verbatim>\<open>_handlePresence\<close>, for a message from the peer \<open>src\<close>, in two
  steps. Lines 120 to 124: a peer asks for this client's presence.\<close>

definition answerRequest ::
  "'p envelope \<Rightarrow> int \<Rightarrow> ('p, 'o, 'c) doc \<Rightarrow> (unit, ('p, 'o, 'c) doc) outcome" where
  "answerRequest msg cseq d =
     (if e_r msg then
        (case presence d of
           None \<Rightarrow> Throws TypeError d
         | Some ps \<Rightarrow>
             if pending ps = None then
               flush cseq (d\<lparr>presence := Some (ps\<lparr>pending := Some []\<rparr>)\<rparr>)
             else Returns () d)
      else Returns () d)"

text \<open>Lines 126 to 146: the ordering rule, the store, and what follows the store.\<close>

definition acceptReceived ::
  "string \<Rightarrow> 'p envelope \<Rightarrow> int \<Rightarrow> ('p, 'o, 'c) doc \<Rightarrow> (unit, ('p, 'o, 'c) doc) outcome" where
  "acceptReceived src msg now d =
     (case presence d of
        None \<Rightarrow> Throws TypeError d
      | Some ps \<Rightarrow>
          if (case map_of (received ps) src of
                None \<Rightarrow> False
              | Some old \<Rightarrow>
                  e_seq old > e_seq msg \<or> (e_seq old = e_seq msg \<and> e_v msg \<noteq> None))
          then Returns () d
          else
            let d2 = d\<lparr>presence := Some (ps\<lparr>received :=
                          AList.update src msg (received ps)\<rparr>)\<rparr>
            in
              (case e_v msg of
                 None \<Rightarrow>
                   andThen (setPresence src None True (markProcessed src now d2))
                     (\<lambda>changed d3. Returns () d3)
               | Some mv \<Rightarrow>
                   (case version d2 of
                      None \<Rightarrow> Returns () (d2\<lparr>effects := effects d2 @ [Fetch]\<rparr>)
                    | Some ver \<Rightarrow>
                        if ver < mv then
                          Returns () (d2\<lparr>effects := effects d2 @ [Fetch]\<rparr>)
                        else
                          andThen (processReceivedPresence src True now d2)
                            (\<lambda>changed d3. Returns () d3))))"

definition handlePeer ::
  "string \<Rightarrow> 'p envelope \<Rightarrow> int \<Rightarrow> int \<Rightarrow> ('p, 'o, 'c) doc \<Rightarrow>
     (unit, ('p, 'o, 'c) doc) outcome" where
  "handlePeer src msg cseq now d =
     andThen (answerRequest msg cseq d) (\<lambda>u d1. acceptReceived src msg now d1)"

text \<open>\<^verbatim>\<open>_handlePresence(err, presence)\<close>; the message is \<open>msg\<close> here. The source returns
  the value of its last call in some branches; no caller reads it, and the embedding
  returns \<open>()\<close>.\<close>

definition handlePresence ::
  "error option \<Rightarrow> 'p envelope \<Rightarrow> int \<Rightarrow> int \<Rightarrow> ('p, 'o, 'c) doc \<Rightarrow>
     (unit, ('p, 'o, 'c) doc) outcome" where
  "handlePresence err msg cseq now d =
     (if \<not> subscribed d then Returns () d
      else
        case e_src msg of
          None \<Rightarrow> handleAck err msg cseq d
        | Some src \<Rightarrow>
            if src = [] then handleAck err msg cseq d
            else
              (case err of
                 Some e \<Rightarrow> Returns () (d\<lparr>effects := effects d @ [EmitError e]\<rparr>)
               | None \<Rightarrow> handlePeer src msg cseq now d))"

subsection \<open>Local operations\<close>

text \<open>\<^verbatim>\<open>_transformPresence(src, op)\<close>, a method of the document; the capability of the
  type has the same name, so the method carries a suffix. \<^verbatim>\<open>op.src || ''\<close> is the empty
  string when the operation has no source.\<close>

definition transformPresence_doc ::
  "string \<Rightarrow> 'o operation \<Rightarrow> ('p, 'o, 'c) doc \<Rightarrow> (bool, ('p, 'o, 'c) doc) outcome" where
  "transformPresence_doc src opn d =
     (case presence d of
        None \<Rightarrow> Throws TypeError d
      | Some ps \<Rightarrow>
          let presenceData = map_of (current ps) src in
          (case o_op opn of
             Some x \<Rightarrow>
               let isOwnOperation = (src = (case o_src opn of None \<Rightarrow> [] | Some s \<Rightarrow> s)) in
               (case doc_type d of
                  None \<Rightarrow> Throws TypeError d
                | Some t \<Rightarrow>
                    (case transformPresence t of
                       None \<Rightarrow> Throws TypeError d
                     | Some tp \<Rightarrow>
                         setPresence src (tp presenceData (Some x) isOwnOperation) False d))
           | None \<Rightarrow> setPresence src None False d))"

fun transformEach ::
  "'o operation \<Rightarrow> string list \<Rightarrow> string list \<Rightarrow> ('p, 'o, 'c) doc \<Rightarrow>
     (string list, ('p, 'o, 'c) doc) outcome" where
  "transformEach opn [] changedSrcList d = Returns changedSrcList d"
| "transformEach opn (src # srcList) changedSrcList d =
     andThen (transformPresence_doc src opn d) (\<lambda>changed d1.
       transformEach opn srcList
         (if changed then changedSrcList @ [src] else changedSrcList) d1)"

definition transformAllPresence ::
  "'o operation \<Rightarrow> ('p, 'o, 'c) doc \<Rightarrow> (unit, ('p, 'o, 'c) doc) outcome" where
  "transformAllPresence opn d =
     (case presence d of
        None \<Rightarrow> Returns () d
      | Some ps \<Rightarrow>
          andThen (transformEach opn (map fst (current ps)) [] d) (\<lambda>changedSrcList d1.
            Returns () (emitPresence changedSrcList False d1)))"

text \<open>The loop of \<^verbatim>\<open>_cacheOp\<close>: the first index from \<open>i\<close> on whose entry is not older than
  \<open>oldOpTime\<close>, or the length when there is none.\<close>

function firstFresh :: "int \<Rightarrow> 'o operation list \<Rightarrow> nat \<Rightarrow> nat" where
  "firstFresh oldOpTime ops i =
     (if i < length ops then
        (if o_time (ops ! i) \<ge> oldOpTime then i else firstFresh oldOpTime ops (i + 1))
      else i)"
  by pat_completeness auto
termination
  by (relation "measure (\<lambda>(oldOpTime, ops, i). length ops - i)") auto

text \<open>\<^verbatim>\<open>splice(0, i)\<close> removes the first \<open>i\<close> entries; \<^verbatim>\<open>push\<close> appends.\<close>

definition cacheOp ::
  "'o operation \<Rightarrow> int \<Rightarrow> ('p, 'o, 'c) doc \<Rightarrow> (unit, ('p, 'o, 'c) doc) outcome" where
  "cacheOp opn now d =
     (case presence d of
        None \<Rightarrow> Returns () d
      | Some ps \<Rightarrow>
          let oldOpTime = now - cachedOpsTimeout ps;
              i = firstFresh oldOpTime (cachedOps ps) 0;
              spliced = (if i > 0 then drop i (cachedOps ps) else cachedOps ps)
          in Returns () (d\<lparr>presence := Some (ps\<lparr>cachedOps := spliced @ [opn]\<rparr>)\<rparr>))"

subsection \<open>Lifecycle\<close>

fun pauseEach ::
  "string list \<Rightarrow> string list \<Rightarrow> ('p, 'o, 'c) doc \<Rightarrow>
     (string list, ('p, 'o, 'c) doc) outcome" where
  "pauseEach [] changedSrcList d = Returns changedSrcList d"
| "pauseEach (src # srcList) changedSrcList d =
     (if src \<noteq> [] then
        andThen (setPresence src None False d) (\<lambda>changed d1.
          pauseEach srcList (if changed then changedSrcList @ [src] else changedSrcList) d1)
      else pauseEach srcList changedSrcList d)"

definition pause :: "('p, 'o, 'c) doc \<Rightarrow> (unit, ('p, 'o, 'c) doc) outcome" where
  "pause d =
     (case presence d of
        None \<Rightarrow> Returns () d
      | Some ps \<Rightarrow>
          let ps1 =
                (case inflight ps of
                   Some batch \<Rightarrow>
                     ps\<lparr>pending := (case pending ps of
                                      Some q \<Rightarrow> Some (batch @ q)
                                    | None \<Rightarrow> Some batch),
                        inflight := None, inflightSeq := 0\<rparr>
                 | None \<Rightarrow>
                     if pending ps = None \<and> map_of (current ps) [] \<noteq> None
                     then ps\<lparr>pending := Some []\<rparr> else ps);
              ps2 = ps1\<lparr>received := [], requestReply := True\<rparr>;
              d1 = d\<lparr>presence := Some ps2\<rparr>
          in andThen (pauseEach (map fst (current ps2)) [] d1) (\<lambda>changedSrcList d2.
               Returns () (emitPresence changedSrcList False d2)))"

definition destroy :: "('p, 'o, 'c) doc \<Rightarrow> (unit, ('p, 'o, 'c) doc) outcome" where
  "destroy d =
     (case presence d of
        None \<Rightarrow> Throws TypeError d
      | Some ps \<Rightarrow> Returns () (d\<lparr>presence := Some (ps\<lparr>received := [], cachedOps := []\<rparr>)\<rparr>))"

fun hardRollbackEach ::
  "string list \<Rightarrow> string list \<Rightarrow> ('p, 'o, 'c) doc \<Rightarrow>
     (string list, ('p, 'o, 'c) doc) outcome" where
  "hardRollbackEach [] changedSrcList d = Returns changedSrcList d"
| "hardRollbackEach (src # srcList) changedSrcList d =
     andThen (setPresence src None False d) (\<lambda>changed d1.
       hardRollbackEach srcList
         (if changed then changedSrcList @ [src] else changedSrcList) d1)"

text \<open>The result is the array \<^verbatim>\<open>pendingPresence\<close>: the inflight batch, when there is one,
  then the pending batch, when there is one.\<close>

definition hardRollbackPresence ::
  "('p, 'o, 'c) doc \<Rightarrow> ('c list list, ('p, 'o, 'c) doc) outcome" where
  "hardRollbackPresence d =
     (case presence d of
        None \<Rightarrow> Throws TypeError d
      | Some ps \<Rightarrow>
          let pendingPresence =
                (case inflight ps of None \<Rightarrow> [] | Some batch \<Rightarrow> [batch]) @
                (case pending ps of None \<Rightarrow> [] | Some batch \<Rightarrow> [batch]);
              ps1 = ps\<lparr>inflight := None, inflightSeq := 0, pending := None,
                       cachedOps := [], received := [], requestReply := True\<rparr>;
              d1 = d\<lparr>presence := Some ps1\<rparr>
          in andThen (hardRollbackEach (map fst (current ps1)) [] d1) (\<lambda>changedSrcList d2.
               Returns pendingPresence (emitPresence changedSrcList False d2)))"

subsection \<open>The module as a set of calls\<close>

text \<open>One constructor per function the module exports, with its arguments and the values
  it reads from the environment, and one for the event loop running a scheduled task.\<close>

datatype ('p, 'o, 'c) call =
    SubmitPresence "'p option" "'c option"
  | HandlePresence "error option" "'p envelope" int int
  | ProcessReceivedPresence string bool int
  | ProcessAllReceivedPresence int
  | TransformPresence string "'o operation"
  | TransformAllPresence "'o operation"
  | Pause
  | SetPresence string "'p option" bool
  | EmitPresenceCall "string list" bool
  | CacheOp "'o operation" int
  | Flush int
  | Destroy
  | HardRollbackPresence
  | RunTask int "'c task"

text \<open>The document a call leaves behind, whether it returns or throws.\<close>

fun perform :: "('p, 'o, 'c) call \<Rightarrow> ('p, 'o, 'c) doc \<Rightarrow> ('p, 'o, 'c) doc" where
  "perform (SubmitPresence data callback) d = final (submitPresence data callback d)"
| "perform (HandlePresence err msg cseq now) d = final (handlePresence err msg cseq now d)"
| "perform (ProcessReceivedPresence src emit now) d =
     final (processReceivedPresence src emit now d)"
| "perform (ProcessAllReceivedPresence now) d = final (processAllReceivedPresence now d)"
| "perform (TransformPresence src opn) d = final (transformPresence_doc src opn d)"
| "perform (TransformAllPresence opn) d = final (transformAllPresence opn d)"
| "perform Pause d = final (pause d)"
| "perform (SetPresence src data emit) d = final (setPresence src data emit d)"
| "perform (EmitPresenceCall srcList submitted) d = emitPresence srcList submitted d"
| "perform (CacheOp opn now) d = final (cacheOp opn now d)"
| "perform (Flush cseq) d = final (flush cseq d)"
| "perform Destroy d = final (destroy d)"
| "perform HardRollbackPresence d = final (hardRollbackPresence d)"
| "perform (RunTask cseq t) d = final (runTask cseq t d)"

text \<open>The value of \<^verbatim>\<open>connection.seq\<close> that a call may read in \<^verbatim>\<open>flush\<close> is not 0.\<close>

fun seqNonzero :: "('p, 'o, 'c) call \<Rightarrow> bool" where
  "seqNonzero (HandlePresence err msg cseq now) = (cseq \<noteq> 0)"
| "seqNonzero (Flush cseq) = (cseq \<noteq> 0)"
| "seqNonzero (RunTask cseq t) = (cseq \<noteq> 0)"
| "seqNonzero c = True"

text \<open>The invariant of the data model: \<open>inflightSeq\<close> is 0 exactly when there is no
  inflight batch. A document without a presence state has nothing to violate.\<close>

definition seqInvariant :: "('p, 'o, 'c) doc \<Rightarrow> bool" where
  "seqInvariant d =
     (case presence d of
        None \<Rightarrow> True
      | Some ps \<Rightarrow> (inflightSeq ps = 0) = (inflight ps = None))"

subsection \<open>Observations and example states\<close>

text \<open>What \<^verbatim>\<open>current[src]\<close> and \<^verbatim>\<open>received[src]\<close> hold in a document.\<close>

definition currentAt :: "('p, 'o, 'c) doc \<Rightarrow> string \<Rightarrow> 'p option" where
  "currentAt d src = (case presence d of None \<Rightarrow> None | Some ps \<Rightarrow> map_of (current ps) src)"

definition receivedAt :: "('p, 'o, 'c) doc \<Rightarrow> string \<Rightarrow> 'p envelope option" where
  "receivedAt d src = (case presence d of None \<Rightarrow> None | Some ps \<Rightarrow> map_of (received ps) src)"

text \<open>The transformation of a received payload in the words of the specification: the
  normalised payload \<open>data\<close> is folded, left to right, through the slice \<open>window\<close> of the
  cached operations, each with the ownership flag ``the operation's source equals the
  presence's source'', then through the inflight operation if there is one, then through
  every pending operation in order, the last two never as own operations.\<close>

definition transformedThrough ::
  "('p option \<Rightarrow> 'o option \<Rightarrow> bool \<Rightarrow> 'p option) \<Rightarrow> string option \<Rightarrow> 'p option \<Rightarrow>
     'o operation list \<Rightarrow> 'o operation option \<Rightarrow> 'o operation list \<Rightarrow> 'p option" where
  "transformedThrough tp psrc data window inflightOpn pendingOpns =
     foldl (\<lambda>a c. tp a (o_op c) False)
       (case inflightOpn of
          None \<Rightarrow> foldl (\<lambda>a c. tp a (o_op c) (psrc = o_src c)) data window
        | Some io \<Rightarrow> tp (foldl (\<lambda>a c. tp a (o_op c) (psrc = o_src c)) data window) (o_op io) False)
       pendingOpns"

text \<open>The last \<open>n\<close> entries of a list.\<close>

definition lastEntries :: "nat \<Rightarrow> 'a list \<Rightarrow> 'a list" where
  "lastEntries n xs = drop (length xs - n) xs"

text \<open>The transformation of one source's payload \<open>old\<close> through a local operation: no
  payload when the operation has no \<^verbatim>\<open>op\<close>, otherwise the type's transform with the flag
  ``the source is the operation's source, or the local source when the operation has
  none''.\<close>

definition transformedPayload ::
  "('p, 'o) ot_type option \<Rightarrow> 'o operation \<Rightarrow> string \<Rightarrow> 'p \<Rightarrow> 'p option" where
  "transformedPayload t opn src old =
     (case o_op opn of
        None \<Rightarrow> None
      | Some x \<Rightarrow>
          (case t of
             None \<Rightarrow> None
           | Some ty \<Rightarrow>
               (case transformPresence ty of
                  None \<Rightarrow> None
                | Some tp \<Rightarrow>
                    tp (Some old) (Some x) (src = (case o_src opn of None \<Rightarrow> [] | Some s \<Rightarrow> s)))))"

text \<open>What the set-presence primitive leaves at a key that holds \<open>old\<close> when it is asked
  to install \<open>new\<close>: nothing when \<open>new\<close> is \<^verbatim>\<open>null\<close>, the old payload when the new one is
  identical to it or the type's optional comparison calls them equal, the new payload
  otherwise.\<close>

definition settled :: "('p, 'o) ot_type option \<Rightarrow> 'p \<Rightarrow> 'p option \<Rightarrow> 'p option" where
  "settled t old new =
     (case new of
        None \<Rightarrow> None
      | Some n \<Rightarrow>
          if old = n \<or>
             (case t of
                None \<Rightarrow> False
              | Some ty \<Rightarrow>
                  (case comparePresence ty of None \<Rightarrow> False | Some cmp \<Rightarrow> cmp (Some old) n))
          then Some old else Some n)"

text \<open>What \<^verbatim>\<open>current\<close> holds at \<open>src\<close> after a local operation was applied, given that it
  held \<open>cur src\<close> before; and whether that is a change.\<close>

definition presenceAfter ::
  "('p, 'o) ot_type option \<Rightarrow> 'o operation \<Rightarrow> (string \<Rightarrow> 'p option) \<Rightarrow> string \<Rightarrow> 'p option" where
  "presenceAfter t opn cur src =
     (case cur src of
        None \<Rightarrow> None
      | Some old \<Rightarrow> settled t old (transformedPayload t opn src old))"

definition presenceChanges ::
  "('p, 'o) ot_type option \<Rightarrow> 'o operation \<Rightarrow> (string \<Rightarrow> 'p option) \<Rightarrow> string \<Rightarrow> bool" where
  "presenceChanges t opn cur src = (presenceAfter t opn cur src \<noteq> cur src)"

text \<open>The parts of the presence state that a step may or may not touch.\<close>

definition queueState :: "('p, 'o, 'c) doc \<Rightarrow> ('c list option \<times> int) option" where
  "queueState d = map_option (\<lambda>ps. (inflight ps, inflightSeq ps)) (presence d)"

definition receivedOf :: "('p, 'o, 'c) doc \<Rightarrow> (string \<times> 'p envelope) list option" where
  "receivedOf d = map_option received (presence d)"

text \<open>A type with presence whose payloads and operations are numbers: a cursor
  position, and an insertion of that many characters before it. An own operation moves
  the cursor one place further.\<close>

definition cursorCreate :: "nat \<Rightarrow> nat option" where
  "cursorCreate x = Some x"

definition cursorTransform :: "nat option \<Rightarrow> nat option \<Rightarrow> bool \<Rightarrow> nat option" where
  "cursorTransform data opn own =
     (case data of
        None \<Rightarrow> None
      | Some n \<Rightarrow> Some (n + (case opn of None \<Rightarrow> 0 | Some k \<Rightarrow> k) + (if own then 1 else 0)))"

definition cursorType :: "(nat, nat) ot_type" where
  "cursorType =
     \<lparr> createPresence = Some cursorCreate,
       transformPresence = Some cursorTransform,
       comparePresence = None \<rparr>"

definition exampleDoc :: "(nat, nat, nat) doc" where
  "exampleDoc =
     \<lparr> collection = ''notes'', doc_id = ''a1'', doc_type = Some cursorType,
       version = Some 5, subscribed = True, inflightOp = None, pendingOps = [],
       hasWritePending = False, presence = Some initializePresence,
       ticks = [], effects = [] \<rparr>"

text \<open>A document with local and remote presence, a batch inflight and a batch pending.\<close>

definition rollbackDoc :: "(nat, nat, nat) doc" where
  "rollbackDoc =
     exampleDoc\<lparr>presence := Some (initializePresence\<lparr>
       current := [([], 3), (''b'', 4)], inflight := Some [7, 8], inflightSeq := 2,
       pending := Some [9], requestReply := False\<rparr>)\<rparr>"

text \<open>A document at version 5 that holds an announcement of the peer \<^verbatim>\<open>b\<close> made at
  version 3, with two cached operations, one operation inflight and one pending.\<close>

definition peerEntry :: "nat envelope" where
  "peerEntry =
     \<lparr> e_src = Some ''b'', e_seq = 1, e_v = Some 3, e_p = Some 10, e_r = False,
       processedAt = None \<rparr>"

definition reconcileState :: "(nat, nat, nat) presence_state" where
  "reconcileState =
     initializePresence\<lparr>
       current := [(''b'', 1)],
       received := [(''b'', peerEntry)],
       cachedOps := [\<lparr> o_op = Some 2, o_src = Some ''b'', o_time = 0 \<rparr>,
                     \<lparr> o_op = Some 4, o_src = Some ''c'', o_time = 1 \<rparr>]\<rparr>"

definition reconcileDoc :: "(nat, nat, nat) doc" where
  "reconcileDoc =
     exampleDoc\<lparr>
       inflightOp := Some \<lparr> o_op = Some 1, o_src = None, o_time = 2 \<rparr>,
       pendingOps := [\<lparr> o_op = Some 7, o_src = None, o_time = 3 \<rparr>],
       presence := Some reconcileState\<rparr>"

text \<open>The same document when the first of the two cached operations it has to bridge
  was a create or a delete.\<close>

definition structuralCacheDoc :: "(nat, nat, nat) doc" where
  "structuralCacheDoc =
     reconcileDoc\<lparr>presence := Some (reconcileState\<lparr>
       cachedOps := [\<lparr> o_op = None, o_src = Some ''b'', o_time = 0 \<rparr>,
                     \<lparr> o_op = Some 4, o_src = Some ''c'', o_time = 1 \<rparr>]\<rparr>)\<rparr>"

text \<open>A document that has stored the announcement number 2 of the peer \<^verbatim>\<open>b\<close>, and two
  messages of that peer: an older announcement, and the withdrawal the server sends,
  without a version, under the number of the announcement it follows.\<close>

definition storedEntry :: "nat envelope" where
  "storedEntry =
     \<lparr> e_src = Some ''b'', e_seq = 2, e_v = Some 5, e_p = Some 10, e_r = False,
       processedAt = Some 900 \<rparr>"

definition orderingDoc :: "(nat, nat, nat) doc" where
  "orderingDoc =
     exampleDoc\<lparr>presence := Some (initializePresence\<lparr>
       current := [(''b'', 10)], received := [(''b'', storedEntry)]\<rparr>)\<rparr>"

definition olderMessage :: "nat envelope" where
  "olderMessage =
     \<lparr> e_src = Some ''b'', e_seq = 1, e_v = Some 5, e_p = Some 4, e_r = False,
       processedAt = None \<rparr>"

definition withdrawal :: "nat envelope" where
  "withdrawal =
     \<lparr> e_src = Some ''b'', e_seq = 2, e_v = None, e_p = None, e_r = False,
       processedAt = None \<rparr>"

text \<open>A cache whose entries are not in the order of their timestamps, and an operation
  stamped long before it is cached.\<close>

definition unorderedCacheDoc :: "(nat, nat, nat) doc" where
  "unorderedCacheDoc =
     exampleDoc\<lparr>presence := Some (initializePresence\<lparr>
       cachedOps := [\<lparr> o_op = Some 1, o_src = Some ''b'', o_time = 100 \<rparr>,
                     \<lparr> o_op = Some 1, o_src = Some ''b'', o_time = 0 \<rparr>]\<rparr>)\<rparr>"

definition orderedCacheDoc :: "(nat, nat, nat) doc" where
  "orderedCacheDoc =
     exampleDoc\<lparr>presence := Some (initializePresence\<lparr>
       cachedOps := [\<lparr> o_op = Some 1, o_src = Some ''b'', o_time = 0 \<rparr>,
                     \<lparr> o_op = Some 1, o_src = Some ''b'', o_time = 100 \<rparr>]\<rparr>)\<rparr>"

text \<open>A document with a local cursor and the cursor of the peer \<^verbatim>\<open>b\<close>, and an operation
  of the local client: it has no source.\<close>

definition cursorsDoc :: "(nat, nat, nat) doc" where
  "cursorsDoc =
     exampleDoc\<lparr>presence := Some (initializePresence\<lparr>current := [([], 3), (''b'', 4)]\<rparr>)\<rparr>"

definition localOperation :: "nat operation" where
  "localOperation = \<lparr> o_op = Some 2, o_src = None, o_time = 7 \<rparr>"

text \<open>A subscribed document with a batch waiting to be sent.\<close>

definition waitingDoc :: "(nat, nat, nat) doc" where
  "waitingDoc =
     exampleDoc\<lparr>presence := Some (initializePresence\<lparr>
       current := [([], 3)], pending := Some [7]\<rparr>)\<rparr>"

section \<open>Properties\<close>

subsection \<open>Clearing presence\<close>

lemma delete_absent: "map_of al k = None \<Longrightarrow> AList.delete k al = al"
  by (simp add: map_of_eq_None_iff)

lemma setPresence_clear:
  "presence d = Some ps \<Longrightarrow>
   setPresence src None False d =
     Returns (map_of (current ps) src \<noteq> None)
       (d\<lparr>presence := Some (ps\<lparr>current := AList.delete src (current ps)\<rparr>)\<rparr>)"
  by (cases "map_of (current ps) src") (simp_all add: setPresence_def delete_absent)

lemma foldl_delete_filter:
  "foldl (\<lambda>al k. AList.delete k al) al ks = filter (\<lambda>p. fst p \<notin> set ks) al"
proof (induction ks arbitrary: al)
  case Nil
  show ?case by simp
next
  case (Cons k ks)
  have "filter (\<lambda>p. fst p \<notin> set ks) (AList.delete k al) = filter (\<lambda>p. fst p \<notin> set (k # ks)) al"
    by (induction al) (auto simp add: AList.delete_eq)
  with Cons show ?case by simp
qed

lemma foldl_delete_all: "foldl (\<lambda>al k. AList.delete k al) al (map fst al) = []"
  by (simp add: foldl_delete_filter)

subsection \<open>The index loops\<close>

declare anyNullOp.simps [simp del] transformLoop.simps [simp del] firstFresh.simps [simp del]

lemma anyNullOp_iff:
  "anyNullOp i ops \<longleftrightarrow> (\<exists>j. i \<le> j \<and> j < length ops \<and> o_op (ops ! j) = None)"
proof (induction i ops rule: anyNullOp.induct)
  case (1 i ops)
  show ?case
  proof (cases "i < length ops")
    case False
    then show ?thesis by (subst anyNullOp.simps) auto
  next
    case True
    show ?thesis
    proof (cases "o_op (ops ! i) = None")
      case True
      with \<open>i < length ops\<close> show ?thesis by (subst anyNullOp.simps) auto
    next
      case False
      have "anyNullOp i ops = anyNullOp (i + 1) ops"
        using False \<open>i < length ops\<close> by (subst anyNullOp.simps) auto
      also have "\<dots> \<longleftrightarrow> (\<exists>j. i + 1 \<le> j \<and> j < length ops \<and> o_op (ops ! j) = None)"
        using "1.IH" [OF \<open>i < length ops\<close> False] .
      also have "\<dots> \<longleftrightarrow> (\<exists>j. i \<le> j \<and> j < length ops \<and> o_op (ops ! j) = None)"
      proof
        assume "\<exists>j. i + 1 \<le> j \<and> j < length ops \<and> o_op (ops ! j) = None"
        then obtain j where "i + 1 \<le> j" "j < length ops" "o_op (ops ! j) = None" by blast
        then have "i \<le> j \<and> j < length ops \<and> o_op (ops ! j) = None" by simp
        then show "\<exists>j. i \<le> j \<and> j < length ops \<and> o_op (ops ! j) = None" by blast
      next
        assume "\<exists>j. i \<le> j \<and> j < length ops \<and> o_op (ops ! j) = None"
        then obtain j where j: "i \<le> j" "j < length ops" "o_op (ops ! j) = None" by blast
        with False have "j \<noteq> i" by auto
        with j have "i + 1 \<le> j \<and> j < length ops \<and> o_op (ops ! j) = None" by simp
        then show "\<exists>j. i + 1 \<le> j \<and> j < length ops \<and> o_op (ops ! j) = None" by blast
      qed
      finally show ?thesis .
    qed
  qed
qed

lemma anyNullOp_drop: "anyNullOp i ops \<longleftrightarrow> (\<exists>x \<in> set (drop i ops). o_op x = None)"
proof -
  have "(\<exists>x \<in> set (drop i ops). o_op x = None) \<longleftrightarrow>
        (\<exists>k < length (drop i ops). o_op (drop i ops ! k) = None)"
    by (metis in_set_conv_nth)
  also have "\<dots> \<longleftrightarrow> (\<exists>j. i \<le> j \<and> j < length ops \<and> o_op (ops ! j) = None)"
  proof
    assume "\<exists>k < length (drop i ops). o_op (drop i ops ! k) = None"
    then obtain k where "k < length ops - i" "o_op (ops ! (i + k)) = None" by auto
    then have "i \<le> i + k \<and> i + k < length ops \<and> o_op (ops ! (i + k)) = None" by auto
    then show "\<exists>j. i \<le> j \<and> j < length ops \<and> o_op (ops ! j) = None" by blast
  next
    assume "\<exists>j. i \<le> j \<and> j < length ops \<and> o_op (ops ! j) = None"
    then obtain j where j: "i \<le> j" "j < length ops" "o_op (ops ! j) = None" by blast
    then have "j - i < length (drop i ops) \<and> o_op (drop i ops ! (j - i)) = None" by auto
    then show "\<exists>k < length (drop i ops). o_op (drop i ops ! k) = None" by blast
  qed
  finally show ?thesis by (simp add: anyNullOp_iff)
qed

lemma transformLoop_foldl:
  "transformLoop tp own ops i data = foldl (\<lambda>a c. tp a (o_op c) (own c)) data (drop i ops)"
proof (induction tp own ops i data rule: transformLoop.induct)
  case (1 tp own ops i data)
  show ?case
  proof (cases "i < length ops")
    case False
    then show ?thesis by (subst transformLoop.simps) simp
  next
    case True
    then have "drop i ops = ops ! i # drop (i + 1) ops"
      by (simp add: Cons_nth_drop_Suc)
    with True "1.IH" [OF True] show ?thesis by (subst transformLoop.simps) simp
  qed
qed

subsection \<open>The set-presence primitive and the rejecting branches\<close>

lemma markProcessed_presence:
  "presence d = Some ps \<Longrightarrow> map_of (received ps) src = Some e \<Longrightarrow>
   markProcessed src now d =
     d\<lparr>presence := Some (ps\<lparr>received :=
          AList.update src (e\<lparr>processedAt := Some now\<rparr>) (received ps)\<rparr>)\<rparr>"
  by (simp add: markProcessed_def)

lemma setPresence_result:
  "setPresence src x emit d = Throws TypeError d \<or>
   setPresence src x emit d = Returns False d \<or>
   (\<exists>ps. presence d = Some ps \<and>
      setPresence src x emit d =
        Returns True
          ((if emit then emitPresence [src] True else id)
             (d\<lparr>presence := Some (ps\<lparr>current :=
                 (case x of
                    None \<Rightarrow> AList.delete src (current ps)
                  | Some v \<Rightarrow> AList.update src v (current ps))\<rparr>)\<rparr>)))"
  by (simp add: setPresence_def Let_def split: option.split)

lemma setPresence_queueState [simp]:
  "queueState (final (setPresence src x emit d)) = queueState d"
  using setPresence_result [of src x emit d]
  by (auto simp add: emitPresence_def queueState_def)

lemma setPresence_receivedOf [simp]:
  "receivedOf (final (setPresence src x emit d)) = receivedOf d"
  using setPresence_result [of src x emit d]
  by (auto simp add: emitPresence_def receivedOf_def)

lemma setPresence_effects [simp]:
  "effects (final (setPresence src x emit d)) = effects d"
  using setPresence_result [of src x emit d]
  by (auto simp add: emitPresence_def)

lemma setPresence_changed:
  "returned (setPresence src x emit d) = Some True \<Longrightarrow>
   currentAt (final (setPresence src x emit d)) src = x"
  using setPresence_result [of src x emit d]
  by (cases emit; cases x)
    (auto simp add: emitPresence_def currentAt_def AList.update_conv' AList.delete_conv')

lemma setPresence_unchanged:
  "returned (setPresence src x emit d) = Some False \<Longrightarrow> final (setPresence src x emit d) = d"
  using setPresence_result [of src x emit d] by auto

lemma setPresence_returns:
  "presence d = Some ps \<Longrightarrow> x = None \<or> doc_type d \<noteq> None \<Longrightarrow>
   returned (setPresence src x emit d) \<noteq> None"
  by (auto simp add: setPresence_def emitPresence_def Let_def split: option.split)

lemma rejectReceived_result:
  assumes "presence d = Some ps" and "map_of (received ps) src = Some e"
  shows "returned (rejectReceived src emit now d) = Some (currentAt d src \<noteq> None) \<and>
         currentAt (final (rejectReceived src emit now d)) src = None \<and>
         receivedAt (final (rejectReceived src emit now d)) src =
           Some (e\<lparr>processedAt := Some now\<rparr>)"
  using assms
  by (simp add: rejectReceived_def markProcessed_def setPresence_def emitPresence_def
      currentAt_def receivedAt_def Let_def AList.update_conv' AList.delete_conv')

lemma processReceivedPresence_deferred:
  assumes "presence d = Some ps" and "map_of (received ps) src = Some e"
    and "version d = None \<or> (\<exists>dv ev. version d = Some dv \<and> e_v e = Some ev \<and> dv < ev)"
  shows "returned (processReceivedPresence src emit now d) = Some False \<and>
         currentAt (final (processReceivedPresence src emit now d)) = currentAt d"
  using assms
  by (auto simp add: processReceivedPresence_def toNumber_def currentAt_def fun_eq_iff
      split: option.split)

lemma processReceivedPresence_rejects:
  assumes "presence d = Some ps" and "map_of (received ps) src = Some e"
    and "src \<noteq> []" and "processedAt e = None"
    and "version d = Some dv" and "e_v e = Some ev" and "ev \<le> dv"
    and "e_p e = None \<or>
         (case doc_type d of
            None \<Rightarrow> True
          | Some t \<Rightarrow> createPresence t = None \<or> transformPresence t = None) \<or>
         (\<exists>io. inflightOp d = Some io \<and> o_op io = None) \<or>
         (\<exists>x \<in> set (pendingOps d). o_op x = None) \<or>
         int (length (cachedOps ps)) < dv - ev \<or>
         (\<exists>x \<in> set (lastEntries (nat (dv - ev)) (cachedOps ps)). o_op x = None)"
  shows "processReceivedPresence src emit now d = rejectReceived src emit now d"
proof -
  have drop_eq: "0 \<le> int (length (cachedOps ps)) - (dv - ev) \<Longrightarrow>
      drop (nat (int (length (cachedOps ps)) - (dv - ev))) (cachedOps ps) =
      lastEntries (nat (dv - ev)) (cachedOps ps)"
    using \<open>ev \<le> dv\<close> by (simp add: lastEntries_def nat_diff_distrib')
  show ?thesis
    using assms(1-7) assms(8) drop_eq
    by (auto simp add: processReceivedPresence_def toNumber_def anyNullOp_drop Let_def
        split: option.split)
qed

subsection \<open>Reconciliation: deferring and rejecting\<close>

text \<open>
  C1. Let \<^verbatim>\<open>received[src]\<close> hold an entry. (1) Whenever the local version is \<^verbatim>\<open>null\<close> or
  less than the entry's version, \<^verbatim>\<open>_processReceivedPresence\<close> returns \<^verbatim>\<open>false\<close> and
  \<open>current\<close> is as before, at every source. (2) Whenever the entry is not yet processed,
  the local version has reached the entry's version, and the payload is \<^verbatim>\<open>null\<close>, or
  the document has no type or its type lacks the create- or the transform-presence
  capability, or the inflight operation or some pending operation has no \<^verbatim>\<open>op\<close>, or
  \<open>cachedOps\<close> is shorter than (local version - entry version), the entry is marked
  processed at \<open>now\<close>, \<^verbatim>\<open>current[src]\<close> ends up absent (nothing is transformed), and the
  result tells whether \<^verbatim>\<open>current[src]\<close> was present before.
\<close>

theorem processReceivedPresence_defers_or_rejects:
  assumes "presence d = Some ps" and "map_of (received ps) src = Some e"
  shows
    "((version d = None \<or> (\<exists>dv ev. version d = Some dv \<and> e_v e = Some ev \<and> dv < ev)) \<longrightarrow>
        returned (processReceivedPresence src emit now d) = Some False \<and>
        currentAt (final (processReceivedPresence src emit now d)) = currentAt d) \<and>
     (src \<noteq> [] \<and> processedAt e = None \<and>
      (\<exists>dv ev. version d = Some dv \<and> e_v e = Some ev \<and> ev \<le> dv \<and>
         (e_p e = None \<or>
          (case doc_type d of
             None \<Rightarrow> True
           | Some t \<Rightarrow> createPresence t = None \<or> transformPresence t = None) \<or>
          (\<exists>io. inflightOp d = Some io \<and> o_op io = None) \<or>
          (\<exists>x \<in> set (pendingOps d). o_op x = None) \<or>
          int (length (cachedOps ps)) < dv - ev)) \<longrightarrow>
        returned (processReceivedPresence src emit now d) = Some (currentAt d src \<noteq> None) \<and>
        currentAt (final (processReceivedPresence src emit now d)) src = None \<and>
        receivedAt (final (processReceivedPresence src emit now d)) src =
          Some (e\<lparr>processedAt := Some now\<rparr>))"
proof (intro conjI impI)
  assume "version d = None \<or> (\<exists>dv ev. version d = Some dv \<and> e_v e = Some ev \<and> dv < ev)"
  from processReceivedPresence_deferred [OF assms this]
  show "returned (processReceivedPresence src emit now d) = Some False"
    and "currentAt (final (processReceivedPresence src emit now d)) = currentAt d"
    by blast+
next
  assume a: "src \<noteq> [] \<and> processedAt e = None \<and>
      (\<exists>dv ev. version d = Some dv \<and> e_v e = Some ev \<and> ev \<le> dv \<and>
         (e_p e = None \<or>
          (case doc_type d of
             None \<Rightarrow> True
           | Some t \<Rightarrow> createPresence t = None \<or> transformPresence t = None) \<or>
          (\<exists>io. inflightOp d = Some io \<and> o_op io = None) \<or>
          (\<exists>x \<in> set (pendingOps d). o_op x = None) \<or>
          int (length (cachedOps ps)) < dv - ev))"
  then obtain dv ev where v: "version d = Some dv" "e_v e = Some ev" "ev \<le> dv"
    and r: "e_p e = None \<or>
          (case doc_type d of
             None \<Rightarrow> True
           | Some t \<Rightarrow> createPresence t = None \<or> transformPresence t = None) \<or>
          (\<exists>io. inflightOp d = Some io \<and> o_op io = None) \<or>
          (\<exists>x \<in> set (pendingOps d). o_op x = None) \<or>
          int (length (cachedOps ps)) < dv - ev"
    by blast
  from r have r': "e_p e = None \<or>
          (case doc_type d of
             None \<Rightarrow> True
           | Some t \<Rightarrow> createPresence t = None \<or> transformPresence t = None) \<or>
          (\<exists>io. inflightOp d = Some io \<and> o_op io = None) \<or>
          (\<exists>x \<in> set (pendingOps d). o_op x = None) \<or>
          int (length (cachedOps ps)) < dv - ev \<or>
          (\<exists>x \<in> set (lastEntries (nat (dv - ev)) (cachedOps ps)). o_op x = None)"
    by blast
  from a have "src \<noteq> []" "processedAt e = None" by simp_all
  from processReceivedPresence_rejects [OF assms this v r']
  have eq: "processReceivedPresence src emit now d = rejectReceived src emit now d" .
  from rejectReceived_result [OF assms, of emit now]
  show "returned (processReceivedPresence src emit now d) = Some (currentAt d src \<noteq> None)"
    and "currentAt (final (processReceivedPresence src emit now d)) src = None"
    and "receivedAt (final (processReceivedPresence src emit now d)) src =
          Some (e\<lparr>processedAt := Some now\<rparr>)"
    unfolding eq by blast+
qed

theorem processReceivedPresence_defers_or_rejects_witness:
  "(returned (processReceivedPresence ''b'' True 1000 (reconcileDoc\<lparr>version := Some 2\<rparr>)) =
      Some False \<and>
    currentAt (final (processReceivedPresence ''b'' True 1000
      (reconcileDoc\<lparr>version := Some 2\<rparr>))) ''b'' = Some 1) \<and>
   (returned (processReceivedPresence ''b'' True 1000
      (reconcileDoc\<lparr>pendingOps := [\<lparr> o_op = None, o_src = None, o_time = 3 \<rparr>]\<rparr>)) = Some True \<and>
    currentAt (final (processReceivedPresence ''b'' True 1000
      (reconcileDoc\<lparr>pendingOps := [\<lparr> o_op = None, o_src = None, o_time = 3 \<rparr>]\<rparr>))) ''b'' = None \<and>
    receivedAt (final (processReceivedPresence ''b'' True 1000
      (reconcileDoc\<lparr>pendingOps := [\<lparr> o_op = None, o_src = None, o_time = 3 \<rparr>]\<rparr>))) ''b'' =
      Some (peerEntry\<lparr>processedAt := Some 1000\<rparr>))"
  using
    processReceivedPresence_defers_or_rejects
      [of "reconcileDoc\<lparr>version := Some 2\<rparr>" reconcileState "''b''" peerEntry True 1000]
    processReceivedPresence_defers_or_rejects
      [of "reconcileDoc\<lparr>pendingOps := [\<lparr> o_op = None, o_src = None, o_time = 3 \<rparr>]\<rparr>"
          reconcileState "''b''" peerEntry True 1000]
  by (simp add: reconcileDoc_def reconcileState_def peerEntry_def exampleDoc_def
      initializePresence_def currentAt_def)

text \<open>
  C9. Reconciliation of an unprocessed entry that the local version has reached also
  rejects and clears when the cache window is long enough and some cached operation among
  the last (local version - entry version) entries, the slice that bridges the entry's
  version to the current one, has no \<^verbatim>\<open>op\<close>: the entry is marked processed at \<open>now\<close>,
  \<^verbatim>\<open>current[src]\<close> ends up absent, and the result tells whether it was present. In the
  witness the payload, the type, the inflight and the pending operations pass their
  checks and the window is exactly long enough.
\<close>

theorem processReceivedPresence_rejects_null_cached_op:
  assumes "presence d = Some ps" and "map_of (received ps) src = Some e"
    and "src \<noteq> []" and "processedAt e = None"
    and "version d = Some dv" and "e_v e = Some ev" and "ev \<le> dv"
    and "dv - ev \<le> int (length (cachedOps ps))"
    and "\<exists>x \<in> set (lastEntries (nat (dv - ev)) (cachedOps ps)). o_op x = None"
  shows "returned (processReceivedPresence src emit now d) = Some (currentAt d src \<noteq> None) \<and>
         currentAt (final (processReceivedPresence src emit now d)) src = None \<and>
         receivedAt (final (processReceivedPresence src emit now d)) src =
           Some (e\<lparr>processedAt := Some now\<rparr>)"
proof -
  have "processReceivedPresence src emit now d = rejectReceived src emit now d"
    using assms(1-7) assms(9) by (intro processReceivedPresence_rejects) blast+
  with rejectReceived_result [OF assms(1,2), of emit now] show ?thesis by simp
qed

theorem processReceivedPresence_rejects_null_cached_op_witness:
  "e_p peerEntry = Some 10 \<and> doc_type structuralCacheDoc = Some cursorType \<and>
   (\<exists>io. inflightOp structuralCacheDoc = Some io \<and> o_op io = Some 1) \<and>
   list_all (\<lambda>x. o_op x \<noteq> None) (pendingOps structuralCacheDoc) \<and>
   returned (processReceivedPresence ''b'' True 1000 structuralCacheDoc) = Some True \<and>
   currentAt (final (processReceivedPresence ''b'' True 1000 structuralCacheDoc)) ''b'' = None \<and>
   receivedAt (final (processReceivedPresence ''b'' True 1000 structuralCacheDoc)) ''b'' =
     Some (peerEntry\<lparr>processedAt := Some 1000\<rparr>)"
  using processReceivedPresence_rejects_null_cached_op
    [of structuralCacheDoc
        "reconcileState\<lparr>
           cachedOps := [\<lparr> o_op = None, o_src = Some ''b'', o_time = 0 \<rparr>,
                         \<lparr> o_op = Some 4, o_src = Some ''c'', o_time = 1 \<rparr>]\<rparr>"
        "''b''" peerEntry 5 3 True 1000]
  by (simp add: structuralCacheDoc_def reconcileDoc_def reconcileState_def peerEntry_def
      exampleDoc_def initializePresence_def currentAt_def lastEntries_def)

subsection \<open>Reconciliation: transforming\<close>

text \<open>
  C2. Let \<^verbatim>\<open>received[src]\<close> hold an unprocessed entry with a payload, let the local
  version have reached the entry's version, let the type have both capabilities, let the
  inflight operation (if any), every pending operation and each of the last (local
  version - entry version) cached operations have an \<^verbatim>\<open>op\<close>, and let \<open>cachedOps\<close> be
  at least that long. Then \<^verbatim>\<open>_processReceivedPresence\<close> marks the entry processed and
  calls the set-presence primitive for \<open>src\<close> with the payload normalised by
  \<^verbatim>\<open>createPresence\<close> and folded left to right through exactly those cached operations,
  each with the flag ``entry source = operation source'', then the inflight operation
  with flag false, then the pending operations in order with flag false. It returns; if
  it reports a change, \<^verbatim>\<open>current[src]\<close> is that value, and if it reports none,
  \<^verbatim>\<open>current[src]\<close> is as before.
\<close>

theorem processReceivedPresence_transforms:
  assumes "presence d = Some ps" and "map_of (received ps) src = Some e"
    and "src \<noteq> []" and "processedAt e = None"
    and "version d = Some dv" and "e_v e = Some ev" and "ev \<le> dv"
    and "e_p e = Some payload"
    and "doc_type d = Some t" and "createPresence t = Some cp"
    and "transformPresence t = Some tp"
    and "\<forall>io. inflightOp d = Some io \<longrightarrow> o_op io \<noteq> None"
    and "\<forall>x \<in> set (pendingOps d). o_op x \<noteq> None"
    and "dv - ev \<le> int (length (cachedOps ps))"
    and "\<forall>x \<in> set (lastEntries (nat (dv - ev)) (cachedOps ps)). o_op x \<noteq> None"
  shows
    "processReceivedPresence src emit now d =
       setPresence src
         (transformedThrough tp (e_src e) (cp payload)
            (lastEntries (nat (dv - ev)) (cachedOps ps)) (inflightOp d) (pendingOps d))
         emit (markProcessed src now d) \<and>
     receivedAt (markProcessed src now d) src = Some (e\<lparr>processedAt := Some now\<rparr>) \<and>
     receivedAt (final (processReceivedPresence src emit now d)) src =
       Some (e\<lparr>processedAt := Some now\<rparr>) \<and>
     (\<exists>changed. returned (processReceivedPresence src emit now d) = Some changed) \<and>
     (returned (processReceivedPresence src emit now d) = Some True \<longrightarrow>
        currentAt (final (processReceivedPresence src emit now d)) src =
          transformedThrough tp (e_src e) (cp payload)
            (lastEntries (nat (dv - ev)) (cachedOps ps)) (inflightOp d) (pendingOps d)) \<and>
     (returned (processReceivedPresence src emit now d) = Some False \<longrightarrow>
        currentAt (final (processReceivedPresence src emit now d)) src = currentAt d src)"
proof -
  let ?data = "transformedThrough tp (e_src e) (cp payload)
            (lastEntries (nat (dv - ev)) (cachedOps ps)) (inflightOp d) (pendingOps d)"
  let ?d1 = "markProcessed src now d"
  have drop_eq: "drop (nat (int (length (cachedOps ps)) - (dv - ev))) (cachedOps ps) =
      lastEntries (nat (dv - ev)) (cachedOps ps)"
    using \<open>ev \<le> dv\<close> \<open>dv - ev \<le> int (length (cachedOps ps))\<close>
    by (simp add: lastEntries_def nat_diff_distrib')
  have inflight_ok: "\<not> (case inflightOp d of None \<Rightarrow> False | Some io \<Rightarrow> o_op io = None)"
    using assms(12) by (simp split: option.split)
  have pending_ok: "\<not> (\<exists>x \<in> set (pendingOps d). o_op x = None)"
    using assms(13) by blast
  have cached_ok:
    "\<not> (\<exists>x \<in> set (lastEntries (nat (dv - ev)) (cachedOps ps)). o_op x = None)"
    using assms(15) by blast
  have eq: "processReceivedPresence src emit now d = setPresence src ?data emit ?d1"
    using assms(1-11) assms(14) inflight_ok pending_ok cached_ok
    by (auto simp add: processReceivedPresence_def toNumber_def anyNullOp_drop Let_def
        transformLoop_foldl drop_eq transformedThrough_def split: option.split)
  have d1: "?d1 = d\<lparr>presence := Some (ps\<lparr>received :=
          AList.update src (e\<lparr>processedAt := Some now\<rparr>) (received ps)\<rparr>)\<rparr>"
    using assms(1,2) by (rule markProcessed_presence)
  have marked: "receivedAt ?d1 src = Some (e\<lparr>processedAt := Some now\<rparr>)"
    by (simp add: d1 receivedAt_def AList.update_conv')
  have "receivedOf (final (setPresence src ?data emit ?d1)) = receivedOf ?d1"
    by simp
  then have kept: "receivedAt (final (setPresence src ?data emit ?d1)) src =
      Some (e\<lparr>processedAt := Some now\<rparr>)"
    using marked by (auto simp add: receivedOf_def receivedAt_def split: option.splits)
  have "presence ?d1 \<noteq> None" "doc_type ?d1 \<noteq> None"
    using assms(9) by (simp_all add: d1)
  then have ret: "\<exists>changed. returned (setPresence src ?data emit ?d1) = Some changed"
    using setPresence_returns [of ?d1 _ ?data src emit] by auto
  have cur: "currentAt ?d1 src = currentAt d src"
    using assms(1) by (simp add: d1 currentAt_def)
  show ?thesis
    unfolding eq
    using marked kept ret cur setPresence_changed [of src ?data emit ?d1]
      setPresence_unchanged [of src ?data emit ?d1]
    by simp
qed

theorem processReceivedPresence_transforms_witness:
  "processReceivedPresence ''b'' True 1000 reconcileDoc =
     setPresence ''b'' (Some 25) True (markProcessed ''b'' 1000 reconcileDoc) \<and>
   receivedAt (final (processReceivedPresence ''b'' True 1000 reconcileDoc)) ''b'' =
     Some (peerEntry\<lparr>processedAt := Some 1000\<rparr>) \<and>
   returned (processReceivedPresence ''b'' True 1000 reconcileDoc) = Some True \<and>
   currentAt (final (processReceivedPresence ''b'' True 1000 reconcileDoc)) ''b'' = Some 25"
proof -
  have t: "transformedThrough cursorTransform (e_src peerEntry) (cursorCreate 10)
      (lastEntries (nat (5 - 3)) (cachedOps reconcileState))
      (inflightOp reconcileDoc) (pendingOps reconcileDoc) = Some 25"
    by (simp add: transformedThrough_def cursorTransform_def cursorCreate_def peerEntry_def
        lastEntries_def reconcileState_def reconcileDoc_def initializePresence_def)
  have r: "returned (setPresence ''b'' (Some 25) True (markProcessed ''b'' 1000 reconcileDoc)) =
      Some True"
    by (simp add: setPresence_def markProcessed_def reconcileDoc_def reconcileState_def
        peerEntry_def exampleDoc_def initializePresence_def cursorType_def emitPresence_def)
  have h: "presence reconcileDoc = Some reconcileState"
    "map_of (received reconcileState) ''b'' = Some peerEntry"
    "''b'' \<noteq> []" "processedAt peerEntry = None"
    "version reconcileDoc = Some 5" "e_v peerEntry = Some 3" "(3::int) \<le> 5"
    "e_p peerEntry = Some 10"
    "doc_type reconcileDoc = Some cursorType" "createPresence cursorType = Some cursorCreate"
    "transformPresence cursorType = Some cursorTransform"
    "\<forall>io. inflightOp reconcileDoc = Some io \<longrightarrow> o_op io \<noteq> None"
    "\<forall>x \<in> set (pendingOps reconcileDoc). o_op x \<noteq> None"
    "5 - 3 \<le> int (length (cachedOps reconcileState))"
    "\<forall>x \<in> set (lastEntries (nat (5 - 3)) (cachedOps reconcileState)). o_op x \<noteq> None"
    by (simp_all add: reconcileDoc_def reconcileState_def peerEntry_def exampleDoc_def
        initializePresence_def cursorType_def lastEntries_def)
  from processReceivedPresence_transforms [OF h, of True 1000] r
  show ?thesis unfolding t by auto
qed

subsection \<open>Messages to an unsubscribed document\<close>

text \<open>
  C10. A presence message handled while the document is not subscribed changes nothing:
  the handler returns at once with the document as it was, so no field of the presence
  state changes, no continuation is invoked, and nothing is emitted or scheduled. This
  holds for an acknowledgment too: the inflight batch and \<open>inflightSeq\<close> stay in place.
\<close>

theorem handlePresence_unsubscribed:
  "\<not> subscribed d \<Longrightarrow> handlePresence err msg cseq now d = Returns () d"
  by (simp add: handlePresence_def)

theorem handlePresence_unsubscribed_witness:
  "handlePresence (Some (ShareDBError 1 ''rejected''))
     \<lparr> e_src = None, e_seq = 3, e_v = None, e_p = None, e_r = False, processedAt = None \<rparr> 4 0
     (exampleDoc\<lparr>subscribed := False,
        presence := Some (initializePresence\<lparr>inflight := Some [7], inflightSeq := 3\<rparr>)\<rparr>)
   = Returns ()
     (exampleDoc\<lparr>subscribed := False,
        presence := Some (initializePresence\<lparr>inflight := Some [7], inflightSeq := 3\<rparr>)\<rparr>)"
  using handlePresence_unsubscribed
    [of "exampleDoc\<lparr>subscribed := False,
        presence := Some (initializePresence\<lparr>inflight := Some [7], inflightSeq := 3\<rparr>)\<rparr>"]
  by simp

subsection \<open>Submission before the document can carry presence\<close>

text \<open>
  C4, as amended. For every data argument other than \<^verbatim>\<open>null\<close>: when the document has no
  type, \<^verbatim>\<open>submitPresence\<close> only schedules a task, and the task, when the event loop runs
  it, invokes the continuation with the error 4015 (\<^verbatim>\<open>NotCreated\<close>); when the type lacks
  the create- or the transform-presence capability, the task invokes it with the error
  4027 (\<^verbatim>\<open>UnsupportedType\<close>). In both cases the document returned differs from the one
  given in its task queue only: \<^verbatim>\<open>current['']\<close>, \<^verbatim>\<open>pending\<close> and \<^verbatim>\<open>inflight\<close> are
  unchanged and nothing was invoked on the caller's stack.
\<close>

theorem submitPresence_precondition_failure:
  "(doc_type d = None \<longrightarrow>
      submitPresence (Some x) callback d =
        Returns () (d\<lparr>ticks := ticks d @ [NotCreatedTask callback]\<rparr>)) \<and>
   ((\<exists>t. doc_type d = Some t \<and> (createPresence t = None \<or> transformPresence t = None)) \<longrightarrow>
      submitPresence (Some x) callback d =
        Returns () (d\<lparr>ticks := ticks d @ [UnsupportedTask callback]\<rparr>)) \<and>
   runTask cseq (NotCreatedTask (Some c)) d' =
     Returns () (d'\<lparr>effects := effects d' @
       [Call c (Some (ShareDBError 4015
          (''Cannot submit presence. Document has not been created. '' @
           collection d' @ ''.'' @ doc_id d')))]\<rparr>) \<and>
   runTask cseq (UnsupportedTask (Some c)) d' =
     Returns () (d'\<lparr>effects := effects d' @
       [Call c (Some (ShareDBError 4027
          (''Cannot submit presence. Document'' @ [CHR 0x27] @
           ''s type does not support presence. '' @ collection d' @ ''.'' @ doc_id d')))]\<rparr>)"
  by (auto simp add: submitPresence_def runTask_def report_def notCreatedError_def
      unsupportedTypeError_def split: option.splits)

theorem submitPresence_precondition_failure_witness:
  "submitPresence (Some 3) (Some 7) (exampleDoc\<lparr>doc_type := None\<rparr>) =
     Returns () (exampleDoc\<lparr>doc_type := None, ticks := [NotCreatedTask (Some 7)]\<rparr>) \<and>
   submitPresence (Some 3) (Some 7)
       (exampleDoc\<lparr>doc_type := Some (cursorType\<lparr>transformPresence := None\<rparr>)\<rparr>) =
     Returns ()
       (exampleDoc\<lparr>doc_type := Some (cursorType\<lparr>transformPresence := None\<rparr>),
          ticks := [UnsupportedTask (Some 7)]\<rparr>) \<and>
   runTask 1 (NotCreatedTask (Some 7))
       (exampleDoc\<lparr>doc_type := None, ticks := []\<rparr>) =
     Returns ()
       (exampleDoc\<lparr>doc_type := None, ticks := [],
          effects := [Call 7 (Some (ShareDBError 4015
            ''Cannot submit presence. Document has not been created. notes.a1''))]\<rparr>)"
  using
    submitPresence_precondition_failure
      [of "exampleDoc\<lparr>doc_type := None\<rparr>" 3 "Some 7" 1 7
          "exampleDoc\<lparr>doc_type := None, ticks := []\<rparr>"]
    submitPresence_precondition_failure
      [of "exampleDoc\<lparr>doc_type := Some (cursorType\<lparr>transformPresence := None\<rparr>)\<rparr>"
          3 "Some 7" 1 7 exampleDoc]
  by (simp add: exampleDoc_def cursorType_def)

text \<open>
  The claim as written ranges over every data argument. Submitting \<^verbatim>\<open>null\<close> skips both
  checks: on a document without a type whose local presence is set, it clears
  \<^verbatim>\<open>current['']\<close>, queues the continuation on \<^verbatim>\<open>pending\<close> and schedules a change
  notification and a flush; no error is scheduled.
\<close>

theorem submitPresence_null_counterexample:
  "doc_type (exampleDoc\<lparr>doc_type := None,
       presence := Some (initializePresence\<lparr>current := [([], 3)]\<rparr>)\<rparr>) = None \<and>
   submitPresence None (Some 7)
     (exampleDoc\<lparr>doc_type := None,
        presence := Some (initializePresence\<lparr>current := [([], 3)]\<rparr>)\<rparr>) =
   Returns ()
     (exampleDoc\<lparr>doc_type := None,
        presence := Some (initializePresence\<lparr>current := [], pending := Some [7]\<rparr>),
        ticks := [EmitPresenceTask [[]] True, FlushTask]\<rparr>)"
  by (simp add: submitPresence_def submitNormalized_def setPresence_def andThen_def
      emitPresence_def exampleDoc_def initializePresence_def AList.delete_eq)

subsection \<open>Hard rollback\<close>

lemma hardRollbackEach_result:
  "presence d = Some ps \<Longrightarrow>
   \<exists>changed. hardRollbackEach ks acc d =
     Returns changed
       (d\<lparr>presence := Some (ps\<lparr>current := foldl (\<lambda>al k. AList.delete k al) (current ps) ks\<rparr>)\<rparr>)"
proof (induction ks arbitrary: acc d ps)
  case Nil
  then show ?case by simp
next
  case (Cons k ks)
  let ?ps1 = "ps\<lparr>current := AList.delete k (current ps)\<rparr>"
  let ?d1 = "d\<lparr>presence := Some ?ps1\<rparr>"
  have step: "setPresence k None False d = Returns (map_of (current ps) k \<noteq> None) ?d1"
    using Cons.prems by (rule setPresence_clear)
  have "presence ?d1 = Some ?ps1" by simp
  from Cons.IH [OF this] obtain changed where
    "hardRollbackEach ks (if map_of (current ps) k \<noteq> None then acc @ [k] else acc) ?d1 =
       Returns changed
         (?d1\<lparr>presence := Some (?ps1\<lparr>current :=
            foldl (\<lambda>al k. AList.delete k al) (current ?ps1) ks\<rparr>)\<rparr>)"
    by blast
  with step show ?case by (simp add: andThen_def)
qed

text \<open>
  C5. On a document with a presence state, \<^verbatim>\<open>_hardRollbackPresence\<close> returns the list made
  of the inflight batch, when there is one, followed by the pending batch, when there is
  one, so that every outstanding continuation occurs in the result as often as it was
  queued; in the state it leaves, \<open>inflight\<close> and \<open>pending\<close> are absent, \<open>inflightSeq\<close> is
  0, \<open>cachedOps\<close> and \<open>received\<close> are empty, \<open>requestReply\<close> is true and \<open>current\<close> has
  no entry at all, the local key included; the log of effects is as before, so no
  continuation was invoked, and the only task it may schedule is the change
  notification.
\<close>

theorem hardRollbackPresence_resets:
  assumes "presence d = Some ps"
  shows "\<exists>d'. hardRollbackPresence d =
           Returns ((case inflight ps of None \<Rightarrow> [] | Some batch \<Rightarrow> [batch]) @
                    (case pending ps of None \<Rightarrow> [] | Some batch \<Rightarrow> [batch])) d' \<and>
           presence d' = Some (ps\<lparr>current := [], inflight := None, inflightSeq := 0,
                                  pending := None, cachedOps := [], received := [],
                                  requestReply := True\<rparr>) \<and>
           effects d' = effects d \<and>
           (ticks d' = ticks d \<or>
            (\<exists>changed. ticks d' = ticks d @ [EmitPresenceTask changed False]))"
proof -
  let ?ps1 = "ps\<lparr>inflight := None, inflightSeq := 0, pending := None,
                 cachedOps := [], received := [], requestReply := True\<rparr>"
  let ?d1 = "d\<lparr>presence := Some ?ps1\<rparr>"
  have "presence ?d1 = Some ?ps1" by simp
  from hardRollbackEach_result [OF this, of "map fst (current ps)" "[]"]
  obtain changed where
    "hardRollbackEach (map fst (current ps)) [] ?d1 =
       Returns changed (?d1\<lparr>presence := Some (?ps1\<lparr>current := []\<rparr>)\<rparr>)"
    by (auto simp add: foldl_delete_all)
  with assms show ?thesis
    by (auto simp add: hardRollbackPresence_def andThen_def emitPresence_def Let_def)
qed

theorem hardRollbackPresence_resets_witness:
  "returned (hardRollbackPresence rollbackDoc) = Some [[7, 8], [9]] \<and>
   presence (final (hardRollbackPresence rollbackDoc)) = Some initializePresence \<and>
   effects (final (hardRollbackPresence rollbackDoc)) = []"
  using hardRollbackPresence_resets [of rollbackDoc "initializePresence\<lparr>
              current := [([], 3), (''b'', 4)], inflight := Some [7, 8], inflightSeq := 2,
              pending := Some [9], requestReply := False\<rparr>"]
  by (auto simp add: rollbackDoc_def exampleDoc_def initializePresence_def)

subsection \<open>Ingestion of a peer's message\<close>

lemma receivedAt_receivedOf:
  "receivedAt d src = (case receivedOf d of None \<Rightarrow> None | Some r \<Rightarrow> map_of r src)"
  by (simp add: receivedAt_def receivedOf_def split: option.split)

lemma processReceivedPresence_shape:
  assumes "presence d = Some ps" and "map_of (received ps) src = Some e"
    and "src \<noteq> []" and "processedAt e = None"
    and "version d = Some ver" and "\<not> ver < toNumber (e_v e)"
  shows "\<exists>x. processReceivedPresence src emit now d =
           setPresence src x emit (markProcessed src now d)"
  using assms
  by (auto simp add: processReceivedPresence_def rejectReceived_def Let_def
      split: option.split)

lemma processReceivedPresence_marks:
  assumes "presence d = Some ps" and "map_of (received ps) src = Some e"
    and "src \<noteq> []" and "processedAt e = None"
    and "version d = Some ver" and "\<not> ver < toNumber (e_v e)"
  shows "receivedAt (final (processReceivedPresence src emit now d)) src =
           Some (e\<lparr>processedAt := Some now\<rparr>)"
proof -
  from processReceivedPresence_shape [OF assms] obtain x where
    "processReceivedPresence src emit now d =
       setPresence src x emit (markProcessed src now d)" by blast
  then have "receivedAt (final (processReceivedPresence src emit now d)) src =
      receivedAt (markProcessed src now d) src"
    by (simp add: receivedAt_receivedOf)
  also have "\<dots> = Some (e\<lparr>processedAt := Some now\<rparr>)"
    using assms(1,2) by (simp add: markProcessed_presence receivedAt_def AList.update_conv')
  finally show ?thesis .
qed

lemma flush_frame:
  "presence d = Some ps \<Longrightarrow>
   \<exists>d1 ps1. flush cseq d = Returns () d1 \<and> presence d1 = Some ps1 \<and>
     received ps1 = received ps \<and> current ps1 = current ps \<and> version d1 = version d"
  by (simp add: flush_def)

lemma answerRequest_frame:
  "presence d = Some ps \<Longrightarrow>
   \<exists>d1 ps1. answerRequest msg cseq d = Returns () d1 \<and> presence d1 = Some ps1 \<and>
     received ps1 = received ps \<and> current ps1 = current ps \<and> version d1 = version d"
  using flush_frame [of "d\<lparr>presence := Some (ps\<lparr>pending := Some []\<rparr>)\<rparr>" "ps\<lparr>pending := Some []\<rparr>" cseq]
  by (auto simp add: answerRequest_def)

lemma acceptReceived_stale:
  assumes "presence d = Some ps"
    and "\<exists>old. map_of (received ps) src = Some old \<and>
           (e_seq old > e_seq msg \<or> (e_seq old = e_seq msg \<and> e_v msg \<noteq> None))"
  shows "acceptReceived src msg now d = Returns () d"
  using assms by (auto simp add: acceptReceived_def)

lemma acceptReceived_stores:
  assumes "presence d = Some ps"
    and "\<not> (\<exists>old. map_of (received ps) src = Some old \<and>
           (e_seq old > e_seq msg \<or> (e_seq old = e_seq msg \<and> e_v msg \<noteq> None)))"
    and "src \<noteq> []" and "processedAt msg = None"
  shows "receivedAt (final (acceptReceived src msg now d)) src =
           (case e_v msg of
              None \<Rightarrow> Some (msg\<lparr>processedAt := Some now\<rparr>)
            | Some mv \<Rightarrow>
                (case version d of
                   None \<Rightarrow> Some msg
                 | Some ver \<Rightarrow>
                     if ver < mv then Some msg else Some (msg\<lparr>processedAt := Some now\<rparr>)))"
proof -
  let ?ps2 = "ps\<lparr>received := AList.update src msg (received ps)\<rparr>"
  let ?d2 = "d\<lparr>presence := Some ?ps2\<rparr>"
  have p2: "presence ?d2 = Some ?ps2" by simp
  have m2: "map_of (received ?ps2) src = Some msg" by (simp add: AList.update_conv')
  have fresh: "\<not> (case map_of (received ps) src of
                None \<Rightarrow> False
              | Some old \<Rightarrow>
                  e_seq old > e_seq msg \<or> (e_seq old = e_seq msg \<and> e_v msg \<noteq> None))"
    using assms(2) by (auto split: option.split)
  have unfold: "acceptReceived src msg now d =
      (case e_v msg of
                 None \<Rightarrow>
                   andThen (setPresence src None True (markProcessed src now ?d2))
                     (\<lambda>changed d3. Returns () d3)
               | Some mv \<Rightarrow>
                   (case version ?d2 of
                      None \<Rightarrow> Returns () (?d2\<lparr>effects := effects ?d2 @ [Fetch]\<rparr>)
                    | Some ver \<Rightarrow>
                        if ver < mv then
                          Returns () (?d2\<lparr>effects := effects ?d2 @ [Fetch]\<rparr>)
                        else
                          andThen (processReceivedPresence src True now ?d2)
                            (\<lambda>changed d3. Returns () d3)))"
    using assms(1) fresh by (simp add: acceptReceived_def Let_def)
  have final_andThen: "\<And>m. final (andThen m (\<lambda>changed d3. Returns () d3)) = final m"
    by (simp add: andThen_def split: outcome.split)
  have marked: "receivedAt (markProcessed src now ?d2) src = Some (msg\<lparr>processedAt := Some now\<rparr>)"
    using markProcessed_presence [OF p2 m2, of now]
    by (simp add: receivedAt_def AList.update_conv')
  show ?thesis
  proof (cases "e_v msg")
    case None
    then show ?thesis
      using marked by (simp add: unfold final_andThen receivedAt_receivedOf)
  next
    case (Some mv)
    show ?thesis
    proof (cases "version d")
      case None
      with Some show ?thesis
        by (simp add: unfold receivedAt_def AList.update_conv')
    next
      case (Some ver)
      show ?thesis
      proof (cases "ver < mv")
        case True
        with Some \<open>e_v msg = Some mv\<close> show ?thesis
          by (simp add: unfold receivedAt_def AList.update_conv')
      next
        case False
        have "receivedAt (final (processReceivedPresence src True now ?d2)) src =
            Some (msg\<lparr>processedAt := Some now\<rparr>)"
          using False Some \<open>e_v msg = Some mv\<close> assms(3,4)
          by (intro processReceivedPresence_marks [OF p2 m2 assms(3,4), where ver = ver])
            (simp_all add: toNumber_def)
        with False Some \<open>e_v msg = Some mv\<close> show ?thesis
          by (simp add: unfold final_andThen)
      qed
    qed
  qed
qed

text \<open>
  C3. Let a subscribed document handle a message that carries the source \<open>src\<close>, no
  protocol error and no \<^verbatim>\<open>processedAt\<close> of its own. If \<^verbatim>\<open>received[src]\<close> holds an entry
  whose sequence is greater than the message's, or equal to it while the message has a
  version, the message is discarded: \<open>received\<close> and \<open>current\<close> are as before. Otherwise
  the message replaces \<^verbatim>\<open>received[src]\<close>: the entry is the message itself when a fetch is
  requested (the local version is unknown or behind), and the message marked processed
  at \<open>now\<close> when it has no version or is reconciled at once. So a message with an equal
  sequence and no version is accepted.
\<close>

theorem handlePresence_ordering_rule:
  assumes "subscribed d" and "presence d = Some ps"
    and "e_src msg = Some src" and "src \<noteq> []" and "processedAt msg = None"
  shows
    "((\<exists>old. map_of (received ps) src = Some old \<and>
         (e_seq old > e_seq msg \<or> (e_seq old = e_seq msg \<and> e_v msg \<noteq> None))) \<longrightarrow>
        receivedOf (final (handlePresence None msg cseq now d)) = Some (received ps) \<and>
        currentAt (final (handlePresence None msg cseq now d)) = currentAt d) \<and>
     (\<not> (\<exists>old. map_of (received ps) src = Some old \<and>
         (e_seq old > e_seq msg \<or> (e_seq old = e_seq msg \<and> e_v msg \<noteq> None))) \<longrightarrow>
        receivedAt (final (handlePresence None msg cseq now d)) src =
          (case e_v msg of
             None \<Rightarrow> Some (msg\<lparr>processedAt := Some now\<rparr>)
           | Some mv \<Rightarrow>
               (case version d of
                  None \<Rightarrow> Some msg
                | Some ver \<Rightarrow>
                    if ver < mv then Some msg else Some (msg\<lparr>processedAt := Some now\<rparr>))))"
proof -
  from answerRequest_frame [OF assms(2), of msg cseq] obtain d1 ps1 where
    a: "answerRequest msg cseq d = Returns () d1" and p1: "presence d1 = Some ps1"
    and r1: "received ps1 = received ps" and c1: "current ps1 = current ps"
    and v1: "version d1 = version d"
    by blast
  have h: "handlePresence None msg cseq now d = acceptReceived src msg now d1"
    using assms(1,3,4) a by (simp add: handlePresence_def handlePeer_def andThen_def)
  show ?thesis
  proof (intro conjI impI)
    assume "\<exists>old. map_of (received ps) src = Some old \<and>
         (e_seq old > e_seq msg \<or> (e_seq old = e_seq msg \<and> e_v msg \<noteq> None))"
    then have "acceptReceived src msg now d1 = Returns () d1"
      using acceptReceived_stale [OF p1, of src msg now] by (simp add: r1)
    then show "receivedOf (final (handlePresence None msg cseq now d)) = Some (received ps)"
      and "currentAt (final (handlePresence None msg cseq now d)) = currentAt d"
      using p1 r1 c1 assms(2) by (simp_all add: h receivedOf_def currentAt_def fun_eq_iff)
  next
    assume "\<not> (\<exists>old. map_of (received ps) src = Some old \<and>
         (e_seq old > e_seq msg \<or> (e_seq old = e_seq msg \<and> e_v msg \<noteq> None)))"
    then have "\<not> (\<exists>old. map_of (received ps1) src = Some old \<and>
         (e_seq old > e_seq msg \<or> (e_seq old = e_seq msg \<and> e_v msg \<noteq> None)))"
      by (simp add: r1)
    from acceptReceived_stores [OF p1 this assms(4,5), of now]
    show "receivedAt (final (handlePresence None msg cseq now d)) src =
          (case e_v msg of
             None \<Rightarrow> Some (msg\<lparr>processedAt := Some now\<rparr>)
           | Some mv \<Rightarrow>
               (case version d of
                  None \<Rightarrow> Some msg
                | Some ver \<Rightarrow>
                    if ver < mv then Some msg else Some (msg\<lparr>processedAt := Some now\<rparr>)))"
      by (simp add: h v1 cong: option.case_cong)
  qed
qed

theorem handlePresence_ordering_rule_witness:
  "receivedOf (final (handlePresence None olderMessage 1 1000 orderingDoc)) =
     Some [(''b'', storedEntry)] \<and>
   receivedAt (final (handlePresence None withdrawal 1 1000 orderingDoc)) ''b'' =
     Some (withdrawal\<lparr>processedAt := Some 1000\<rparr>)"
proof -
  have h: "subscribed orderingDoc"
    "presence orderingDoc = Some (initializePresence\<lparr>
       current := [(''b'', 10)], received := [(''b'', storedEntry)]\<rparr>)"
    by (simp_all add: orderingDoc_def exampleDoc_def)
  have o: "e_src olderMessage = Some ''b''" "''b'' \<noteq> []" "processedAt olderMessage = None"
    by (simp_all add: olderMessage_def)
  have w: "e_src withdrawal = Some ''b''" "''b'' \<noteq> []" "processedAt withdrawal = None"
    by (simp_all add: withdrawal_def)
  from handlePresence_ordering_rule [OF h o, of 1 1000]
    handlePresence_ordering_rule [OF h w, of 1 1000]
  show ?thesis
    by (simp add: olderMessage_def withdrawal_def storedEntry_def initializePresence_def)
qed

subsection \<open>The cache of operations\<close>

lemma firstFresh_takeWhile:
  "firstFresh t ops i = i + length (takeWhile (\<lambda>c. o_time c < t) (drop i ops))"
proof (induction t ops i rule: firstFresh.induct)
  case (1 t ops i)
  show ?case
  proof (cases "i < length ops")
    case False
    then show ?thesis by (subst firstFresh.simps) simp
  next
    case True
    then have d: "drop i ops = ops ! i # drop (i + 1) ops"
      by (simp add: Cons_nth_drop_Suc)
    show ?thesis
    proof (cases "o_time (ops ! i) \<ge> t")
      case True
      with \<open>i < length ops\<close> d show ?thesis by (subst firstFresh.simps) simp
    next
      case False
      with \<open>i < length ops\<close> d "1.IH" [OF \<open>i < length ops\<close> False] show ?thesis
        by (subst firstFresh.simps) simp
    qed
  qed
qed

lemma cacheOp_dropWhile:
  "presence d = Some ps \<Longrightarrow>
   cacheOp opn now d =
     Returns ()
       (d\<lparr>presence := Some (ps\<lparr>cachedOps :=
          dropWhile (\<lambda>c. o_time c < now - cachedOpsTimeout ps) (cachedOps ps) @ [opn]\<rparr>)\<rparr>)"
  by (simp add: cacheOp_def Let_def firstFresh_takeWhile dropWhile_eq_drop)

lemma sorted_dropWhile_fresh:
  "sorted (map o_time ops) \<Longrightarrow> c \<in> set (dropWhile (\<lambda>c. o_time c < t) ops) \<Longrightarrow> t \<le> o_time c"
  by (induction ops) (auto split: if_splits)

text \<open>
  C7, as amended. When the cached operations are in ascending order of their timestamps
  and the operation to cache is stamped no earlier than \<open>now - cachedOpsTimeout\<close>,
  \<^verbatim>\<open>_cacheOp\<close> leaves the cache without the longest prefix of entries older than that
  bound, with the new operation appended at the end, and no entry of the result is older
  than the bound.
\<close>

theorem cacheOp_prunes_ordered_cache:
  assumes "presence d = Some ps"
    and "sorted (map o_time (cachedOps ps))"
    and "now - cachedOpsTimeout ps \<le> o_time opn"
  shows "cacheOp opn now d =
           Returns ()
             (d\<lparr>presence := Some (ps\<lparr>cachedOps :=
                dropWhile (\<lambda>c. o_time c < now - cachedOpsTimeout ps) (cachedOps ps) @
                [opn]\<rparr>)\<rparr>) \<and>
         (\<forall>c \<in> set (dropWhile (\<lambda>c. o_time c < now - cachedOpsTimeout ps) (cachedOps ps) @
                      [opn]).
            now - cachedOpsTimeout ps \<le> o_time c)"
  using assms(3) cacheOp_dropWhile [OF assms(1), of opn now]
    sorted_dropWhile_fresh [OF assms(2), of _ "now - cachedOpsTimeout ps"]
  by auto

theorem cacheOp_prunes_ordered_cache_witness:
  "map_option cachedOps (presence (final
      (cacheOp \<lparr> o_op = Some 1, o_src = Some ''c'', o_time = 60050 \<rparr> 60050 orderedCacheDoc))) =
     Some [\<lparr> o_op = Some 1, o_src = Some ''b'', o_time = 100 \<rparr>,
           \<lparr> o_op = Some 1, o_src = Some ''c'', o_time = 60050 \<rparr>]"
  using cacheOp_prunes_ordered_cache
    [of orderedCacheDoc
        "initializePresence\<lparr>
           cachedOps := [\<lparr> o_op = Some 1, o_src = Some ''b'', o_time = 0 \<rparr>,
                         \<lparr> o_op = Some 1, o_src = Some ''b'', o_time = 100 \<rparr>]\<rparr>"
        60050 "\<lparr> o_op = Some 1, o_src = Some ''c'', o_time = 60050 \<rparr>"]
  by (auto simp add: orderedCacheDoc_def exampleDoc_def initializePresence_def)

text \<open>
  The claim as written ranges over every state of the cache. The loop stops at the first
  entry that is not too old, so an older entry behind it stays; and the operation is
  appended whatever its timestamp.
\<close>

theorem cacheOp_unordered_counterexample:
  "map_option (\<lambda>ps. map o_time (cachedOps ps)) (presence (final
      (cacheOp \<lparr> o_op = Some 1, o_src = Some ''c'', o_time = 60050 \<rparr> 60050 unorderedCacheDoc))) =
     Some [100, 0, 60050] \<and>
   map_option (\<lambda>ps. map o_time (cachedOps ps)) (presence (final
      (cacheOp \<lparr> o_op = Some 1, o_src = Some ''c'', o_time = 0 \<rparr> 60050 exampleDoc))) =
     Some [0] \<and>
   map_option cachedOpsTimeout (presence unorderedCacheDoc) = Some 60000 \<and>
   map_option cachedOpsTimeout (presence exampleDoc) = Some 60000 \<and>
   (0::int) < 60050 - 60000"
proof -
  have "firstFresh 50 [\<lparr> o_op = Some (1::nat), o_src = Some ''b'', o_time = 100 \<rparr>,
                     \<lparr> o_op = Some 1, o_src = Some ''b'', o_time = 0 \<rparr>] 0 = 0"
    by (subst firstFresh.simps) simp
  moreover have "firstFresh 50 ([] :: nat operation list) 0 = 0"
    by (subst firstFresh.simps) simp
  ultimately show ?thesis
    by (simp add: cacheOp_def Let_def unorderedCacheDoc_def exampleDoc_def initializePresence_def)
qed

subsection \<open>Transforming presence through a local operation\<close>

lemma setPresence_settles:
  assumes "presence d = Some ps" and "map_of (current ps) src = Some old"
    and "new = None \<or> doc_type d \<noteq> None"
  shows "setPresence src new False d =
           Returns (settled (doc_type d) old new \<noteq> Some old)
             (d\<lparr>presence := Some (ps\<lparr>current :=
                (case settled (doc_type d) old new of
                   None \<Rightarrow> AList.delete src (current ps)
                 | Some n \<Rightarrow> AList.update src n (current ps))\<rparr>)\<rparr>)"
proof (cases new)
  case None
  with assms(1,2) show ?thesis by (simp add: setPresence_def settled_def)
next
  case (Some n)
  with assms(3) obtain ty where ty: "doc_type d = Some ty" by auto
  have triv: "AList.update src old (current ps) = current ps"
    using assms(2) by (rule AList.update_triv)
  show ?thesis
    using assms(1,2) Some ty triv
    by (auto simp add: setPresence_def settled_def split: option.split)
qed

lemma transformPresence_doc_step:
  assumes "presence d = Some ps" and "map_of (current ps) src = Some old"
    and "o_op opn = None \<or> (\<exists>ty. doc_type d = Some ty \<and> transformPresence ty \<noteq> None)"
  shows "transformPresence_doc src opn d =
           Returns
             (settled (doc_type d) old (transformedPayload (doc_type d) opn src old) \<noteq> Some old)
             (d\<lparr>presence := Some (ps\<lparr>current :=
                (case settled (doc_type d) old (transformedPayload (doc_type d) opn src old) of
                   None \<Rightarrow> AList.delete src (current ps)
                 | Some n \<Rightarrow> AList.update src n (current ps))\<rparr>)\<rparr>)"
proof (cases "o_op opn")
  case None
  then have "transformedPayload (doc_type d) opn src old = None"
    by (simp add: transformedPayload_def)
  moreover have "transformPresence_doc src opn d = setPresence src None False d"
    using None assms(1) by (simp add: transformPresence_doc_def)
  ultimately show ?thesis
    using setPresence_settles [OF assms(1,2), of None] by simp
next
  case (Some x)
  with assms(3) obtain ty tp where t: "doc_type d = Some ty" "transformPresence ty = Some tp"
    by auto
  have "transformPresence_doc src opn d =
      setPresence src (transformedPayload (doc_type d) opn src old) False d"
    using Some t assms(1,2) by (simp add: transformPresence_doc_def transformedPayload_def)
  then show ?thesis
    using setPresence_settles [OF assms(1,2), of "transformedPayload (doc_type d) opn src old"] t
    by simp
qed

lemma transformEach_result:
  assumes caps: "o_op opn = None \<or> (\<exists>ty. t = Some ty \<and> transformPresence ty \<noteq> None)"
  shows "doc_type d = t \<Longrightarrow> presence d = Some ps \<Longrightarrow> distinct ks \<Longrightarrow>
     \<forall>k \<in> set ks. map_of (current ps) k \<noteq> None \<Longrightarrow>
     \<exists>cur. transformEach opn ks acc d =
         Returns (acc @ filter (presenceChanges t opn (map_of (current ps))) ks)
           (d\<lparr>presence := Some (ps\<lparr>current := cur\<rparr>)\<rparr>) \<and>
       (\<forall>s. map_of cur s =
          (if s \<in> set ks then presenceAfter t opn (map_of (current ps)) s
           else map_of (current ps) s))"
proof (induction ks arbitrary: acc d ps)
  case Nil
  then have "transformEach opn [] acc d =
      Returns (acc @ filter (presenceChanges t opn (map_of (current ps))) [])
        (d\<lparr>presence := Some (ps\<lparr>current := current ps\<rparr>)\<rparr>)"
    by simp
  then show ?case by (intro exI [of _ "current ps"]) simp
next
  case (Cons k ks)
  from Cons.prems(4) obtain old where old: "map_of (current ps) k = Some old" by auto
  let ?new = "settled t old (transformedPayload t opn k old)"
  let ?cur1 = "case ?new of
                 None \<Rightarrow> AList.delete k (current ps)
               | Some n \<Rightarrow> AList.update k n (current ps)"
  let ?ps1 = "ps\<lparr>current := ?cur1\<rparr>"
  let ?d1 = "d\<lparr>presence := Some ?ps1\<rparr>"
  let ?acc1 = "if ?new \<noteq> Some old then acc @ [k] else acc"
  have caps': "o_op opn = None \<or> (\<exists>ty. doc_type d = Some ty \<and> transformPresence ty \<noteq> None)"
    using caps Cons.prems(1) by simp
  have step: "transformPresence_doc k opn d = Returns (?new \<noteq> Some old) ?d1"
    using transformPresence_doc_step [OF Cons.prems(2) old caps'] Cons.prems(1) by simp
  have cur1: "map_of ?cur1 = (map_of (current ps))(k := ?new)"
    by (cases ?new) (simp_all add: AList.delete_conv' AList.update_conv')
  have t1: "doc_type ?d1 = t" using Cons.prems(1) by simp
  have p1: "presence ?d1 = Some ?ps1" by simp
  have k: "k \<notin> set ks" "distinct ks" using Cons.prems(3) by simp_all
  have present1: "\<forall>k' \<in> set ks. map_of (current ?ps1) k' \<noteq> None"
    using Cons.prems(4) k(1) by (auto simp add: cur1)
  from Cons.IH [OF t1 p1 k(2) present1, of ?acc1] obtain cur where
    run: "transformEach opn ks ?acc1 ?d1 =
         Returns (?acc1 @ filter (presenceChanges t opn (map_of (current ?ps1))) ks)
           (?d1\<lparr>presence := Some (?ps1\<lparr>current := cur\<rparr>)\<rparr>)"
    and m: "\<forall>s. map_of cur s =
          (if s \<in> set ks then presenceAfter t opn (map_of (current ?ps1)) s
           else map_of (current ?ps1) s)"
    by blast
  have same: "\<And>s. s \<noteq> k \<Longrightarrow>
      presenceAfter t opn (map_of (current ?ps1)) s = presenceAfter t opn (map_of (current ps)) s"
    by (simp add: presenceAfter_def cur1)
  have after_k: "presenceAfter t opn (map_of (current ps)) k = ?new"
    by (simp add: presenceAfter_def old)
  have filter_eq: "filter (presenceChanges t opn (map_of (current ?ps1))) ks =
      filter (presenceChanges t opn (map_of (current ps))) ks"
  proof (rule filter_cong [OF refl])
    fix s assume "s \<in> set ks"
    with k(1) have "s \<noteq> k" by auto
    from same [OF this] \<open>s \<noteq> k\<close>
    show "presenceChanges t opn (map_of (current ?ps1)) s =
        presenceChanges t opn (map_of (current ps)) s"
      unfolding presenceChanges_def by (simp add: cur1)
  qed
  have changes_k: "presenceChanges t opn (map_of (current ps)) k = (?new \<noteq> Some old)"
    by (simp add: presenceChanges_def after_k old)
  have acc_eq: "?acc1 @ filter (presenceChanges t opn (map_of (current ps))) ks =
      acc @ filter (presenceChanges t opn (map_of (current ps))) (k # ks)"
    using changes_k by simp
  have "transformEach opn (k # ks) acc d =
      Returns (acc @ filter (presenceChanges t opn (map_of (current ps))) (k # ks))
        (d\<lparr>presence := Some (ps\<lparr>current := cur\<rparr>)\<rparr>)"
  proof -
    have rec_eq: "?d1\<lparr>presence := Some (?ps1\<lparr>current := cur\<rparr>)\<rparr> =
        d\<lparr>presence := Some (ps\<lparr>current := cur\<rparr>)\<rparr>"
      by simp
    have run': "transformEach opn ks ?acc1 ?d1 =
        Returns (acc @ filter (presenceChanges t opn (map_of (current ps))) (k # ks))
          (d\<lparr>presence := Some (ps\<lparr>current := cur\<rparr>)\<rparr>)"
      using run by (simp only: filter_eq acc_eq rec_eq)
    show ?thesis
      by (simp only: transformEach.simps step andThen_def outcome.case run')
  qed
  moreover have "\<forall>s. map_of cur s =
          (if s \<in> set (k # ks) then presenceAfter t opn (map_of (current ps)) s
           else map_of (current ps) s)"
  proof
    fix s
    show "map_of cur s =
          (if s \<in> set (k # ks) then presenceAfter t opn (map_of (current ps)) s
           else map_of (current ps) s)"
    proof (cases "s = k")
      case True
      with m k(1) after_k show ?thesis by (simp add: cur1)
    next
      case False
      with m same [OF False] show ?thesis by (simp add: cur1)
    qed
  qed
  ultimately show ?case by blast
qed

text \<open>
  C6, as amended. When a local operation is applied to a document whose type can
  transform presence (or the operation has no \<^verbatim>\<open>op\<close>), every source of \<open>current\<close>, the
  local source \<^verbatim>\<open>''\<close> included, has its payload transformed through the operation, with
  the ownership flag ``the source equals the operation's source'', where an operation
  without a source counts as the local source's own, and handed to the set-presence
  primitive; an operation without \<^verbatim>\<open>op\<close> clears every source. One change notification
  is scheduled, with the sources that changed in the order of \<open>current\<close> and the flag
  false, unless no source changed. The keys of \<open>current\<close> are distinct, as those of an
  object are.
\<close>

theorem transformAllPresence_every_source:
  assumes "presence d = Some ps" and "distinct (map fst (current ps))"
    and "o_op opn = None \<or> (\<exists>ty. doc_type d = Some ty \<and> transformPresence ty \<noteq> None)"
  shows "\<exists>cur. transformAllPresence opn d =
           Returns ()
             (emitPresence
                (filter (presenceChanges (doc_type d) opn (map_of (current ps)))
                   (map fst (current ps)))
                False
                (d\<lparr>presence := Some (ps\<lparr>current := cur\<rparr>)\<rparr>)) \<and>
           (\<forall>src. map_of cur src = presenceAfter (doc_type d) opn (map_of (current ps)) src) \<and>
           (o_op opn = None \<longrightarrow> cur = [])"
proof -
  have present: "\<forall>k \<in> set (map fst (current ps)). map_of (current ps) k \<noteq> None"
    by (simp add: map_of_eq_None_iff)
  from transformEach_result [OF assms(3) refl assms(1,2) present, of "[]"] obtain cur where
    run: "transformEach opn (map fst (current ps)) [] d =
         Returns ([] @ filter (presenceChanges (doc_type d) opn (map_of (current ps)))
                          (map fst (current ps)))
           (d\<lparr>presence := Some (ps\<lparr>current := cur\<rparr>)\<rparr>)"
    and m: "\<forall>s. map_of cur s =
          (if s \<in> set (map fst (current ps))
           then presenceAfter (doc_type d) opn (map_of (current ps)) s
           else map_of (current ps) s)"
    by blast
  have all: "\<forall>src. map_of cur src = presenceAfter (doc_type d) opn (map_of (current ps)) src"
  proof
    fix src
    show "map_of cur src = presenceAfter (doc_type d) opn (map_of (current ps)) src"
    proof (cases "src \<in> set (map fst (current ps))")
      case True
      with m show ?thesis by simp
    next
      case False
      then have "map_of (current ps) src = None" by (simp add: map_of_eq_None_iff)
      with m False show ?thesis by (simp add: presenceAfter_def)
    qed
  qed
  have cleared: "o_op opn = None \<longrightarrow> cur = []"
  proof
    assume "o_op opn = None"
    then have "\<forall>src. map_of cur src = None"
      using all by (simp add: presenceAfter_def settled_def transformedPayload_def
          split: option.split)
    then have "map_of cur = Map.empty" by (simp add: fun_eq_iff)
    then show "cur = []" by simp
  qed
  have eq: "transformAllPresence opn d =
           Returns ()
             (emitPresence
                (filter (presenceChanges (doc_type d) opn (map_of (current ps)))
                   (map fst (current ps)))
                False
                (d\<lparr>presence := Some (ps\<lparr>current := cur\<rparr>)\<rparr>))"
    using assms(1) run by (simp add: transformAllPresence_def andThen_def)
  show ?thesis
  proof (intro exI conjI)
    show "transformAllPresence opn d =
           Returns ()
             (emitPresence
                (filter (presenceChanges (doc_type d) opn (map_of (current ps)))
                   (map fst (current ps)))
                False
                (d\<lparr>presence := Some (ps\<lparr>current := cur\<rparr>)\<rparr>))"
      by (fact eq)
    show "\<forall>src. map_of cur src = presenceAfter (doc_type d) opn (map_of (current ps)) src"
      by (fact all)
    show "o_op opn = None \<longrightarrow> cur = []"
      by (fact cleared)
  qed
qed

theorem transformAllPresence_every_source_witness:
  "\<exists>cur. transformAllPresence localOperation cursorsDoc =
      Returns ()
        (cursorsDoc\<lparr>
           presence := Some (initializePresence\<lparr>current := cur\<rparr>),
           ticks := [EmitPresenceTask [[], ''b''] False]\<rparr>) \<and>
      map_of cur [] = Some 6 \<and> map_of cur ''b'' = Some 6 \<and> map_of cur ''c'' = None"
proof -
  have h: "presence cursorsDoc = Some (initializePresence\<lparr>current := [([], 3), (''b'', 4)]\<rparr>)"
    "distinct (map fst (current (initializePresence\<lparr>current := [([], 3::nat), (''b'', 4)]\<rparr>
        :: (nat, nat, nat) presence_state)))"
    "o_op localOperation = None \<or>
       (\<exists>ty. doc_type cursorsDoc = Some ty \<and> transformPresence ty \<noteq> None)"
    by (simp_all add: cursorsDoc_def exampleDoc_def localOperation_def cursorType_def)
  from transformAllPresence_every_source [OF h] obtain cur where
    c: "transformAllPresence localOperation cursorsDoc =
           Returns ()
             (emitPresence
                (filter (presenceChanges (doc_type cursorsDoc) localOperation
                   (map_of (current (initializePresence\<lparr>current := [([], 3), (''b'', 4)]\<rparr>
                      :: (nat, nat, nat) presence_state))))
                   (map fst (current (initializePresence\<lparr>current := [([], 3), (''b'', 4)]\<rparr>
                      :: (nat, nat, nat) presence_state))))
                False
                (cursorsDoc\<lparr>presence :=
                   Some (initializePresence\<lparr>current := [([], 3), (''b'', 4)]\<rparr>
                           \<lparr>current := cur\<rparr>)\<rparr>))"
    and m: "\<forall>src. map_of cur src =
        presenceAfter (doc_type cursorsDoc) localOperation
          (map_of (current (initializePresence\<lparr>current := [([], 3), (''b'', 4)]\<rparr>
             :: (nat, nat, nat) presence_state))) src"
    by blast
  have "map_of cur [] = Some 6" "map_of cur ''b'' = Some 6" "map_of cur ''c'' = None"
    using m
    by (simp_all add: presenceAfter_def settled_def transformedPayload_def cursorsDoc_def
        exampleDoc_def localOperation_def cursorType_def cursorTransform_def)
  moreover have "transformAllPresence localOperation cursorsDoc =
      Returns ()
        (cursorsDoc\<lparr>
           presence := Some (initializePresence\<lparr>current := cur\<rparr>),
           ticks := [EmitPresenceTask [[], ''b''] False]\<rparr>)"
    unfolding c
    by (simp add: presenceChanges_def presenceAfter_def settled_def transformedPayload_def
        cursorsDoc_def exampleDoc_def localOperation_def cursorType_def cursorTransform_def
        emitPresence_def)
  ultimately show ?thesis by (intro exI [of _ cur]) simp
qed

text \<open>
  The claim as written excludes the local source from the transformation. The loop of
  \<^verbatim>\<open>_transformAllPresence\<close> runs over every key, and \<^verbatim>\<open>_transformPresence\<close> gives the
  local source the flag true for an operation without a source: the local cursor at 3
  moves to 6 under a local insertion of 2, and the notification names the local source.
\<close>

theorem transformAllPresence_local_counterexample:
  "currentAt cursorsDoc [] = Some 3 \<and>
   currentAt (final (transformAllPresence localOperation cursorsDoc)) [] = Some 6 \<and>
   currentAt (final (transformAllPresence localOperation cursorsDoc)) ''b'' = Some 6 \<and>
   ticks (final (transformAllPresence localOperation cursorsDoc)) =
     [EmitPresenceTask [[], ''b''] False]"
  by (simp add: transformAllPresence_def transformPresence_doc_def setPresence_def
      emitPresence_def andThen_def currentAt_def cursorsDoc_def localOperation_def
      exampleDoc_def initializePresence_def cursorType_def cursorTransform_def Let_def)

subsection \<open>The invariant of the inflight sequence number\<close>

lemma final_andThen:
  "final (andThen m f) = (case m of Returns x s \<Rightarrow> final (f x s) | Throws e s \<Rightarrow> s)"
  by (simp add: andThen_def split: outcome.split)

lemma queueState_andThen:
  assumes "queueState (final m) = q" and "\<And>x s. queueState s = q \<Longrightarrow> queueState (final (f x s)) = q"
  shows "queueState (final (andThen m f)) = q"
  using assms by (cases m) (simp_all add: andThen_def)

lemma emitPresence_queueState [simp]:
  "queueState (emitPresence srcList submitted d) = queueState d"
  by (simp add: emitPresence_def queueState_def)

lemma markProcessed_queueState [simp]:
  "queueState (markProcessed src now d) = queueState d"
  by (simp add: markProcessed_def queueState_def split: option.split)

lemma rejectReceived_queueState [simp]:
  "queueState (final (rejectReceived src emit now d)) = queueState d"
  by (simp add: rejectReceived_def)

lemma processReceivedPresence_queueState [simp]:
  "queueState (final (processReceivedPresence src emit now d)) = queueState d"
  by (simp add: processReceivedPresence_def Let_def queueState_def [of "d\<lparr>presence := _\<rparr>"]
      split: option.split)
    (simp add: queueState_def)

lemma processEach_queueState [simp]:
  "queueState (final (processEach now srcList acc d)) = queueState d"
proof (induction srcList arbitrary: acc d)
  case Nil
  show ?case by simp
next
  case (Cons src srcList)
  show ?case
    by (simp only: processEach.simps)
      (rule queueState_andThen, simp, simp add: Cons.IH)
qed

lemma processAllReceivedPresence_queueState [simp]:
  "queueState (final (processAllReceivedPresence now d)) = queueState d"
  by (cases "presence d")
    (auto simp add: processAllReceivedPresence_def intro!: queueState_andThen)

lemma transformPresence_doc_queueState [simp]:
  "queueState (final (transformPresence_doc src opn d)) = queueState d"
  by (simp add: transformPresence_doc_def Let_def split: option.split)

lemma transformEach_queueState [simp]:
  "queueState (final (transformEach opn srcList acc d)) = queueState d"
proof (induction srcList arbitrary: acc d)
  case Nil
  show ?case by simp
next
  case (Cons src srcList)
  show ?case
    by (simp only: transformEach.simps)
      (rule queueState_andThen, simp, simp add: Cons.IH)
qed

lemma transformAllPresence_queueState [simp]:
  "queueState (final (transformAllPresence opn d)) = queueState d"
  by (cases "presence d")
    (auto simp add: transformAllPresence_def intro!: queueState_andThen)

lemma pauseEach_queueState [simp]:
  "queueState (final (pauseEach srcList acc d)) = queueState d"
proof (induction srcList arbitrary: acc d)
  case Nil
  show ?case by simp
next
  case (Cons src srcList)
  show ?case
  proof (cases "src = []")
    case True
    then show ?thesis by (simp add: Cons.IH)
  next
    case False
    then have "pauseEach (src # srcList) acc d =
        andThen (setPresence src None False d) (\<lambda>changed d1.
          pauseEach srcList (if changed then acc @ [src] else acc) d1)"
      by simp
    then show ?thesis
      by (simp only:) (rule queueState_andThen, simp, simp add: Cons.IH)
  qed
qed

lemma hardRollbackEach_queueState [simp]:
  "queueState (final (hardRollbackEach srcList acc d)) = queueState d"
proof (induction srcList arbitrary: acc d)
  case Nil
  show ?case by simp
next
  case (Cons src srcList)
  show ?case
    by (simp only: hardRollbackEach.simps)
      (rule queueState_andThen, simp, simp add: Cons.IH)
qed

lemma cacheOp_queueState [simp]: "queueState (final (cacheOp opn now d)) = queueState d"
  by (simp add: cacheOp_def Let_def queueState_def split: option.split)

lemma destroy_queueState [simp]: "queueState (final (destroy d)) = queueState d"
  by (simp add: destroy_def queueState_def split: option.split)

lemma flush_seqInvariant:
  "cseq \<noteq> 0 \<Longrightarrow> seqInvariant d \<Longrightarrow> seqInvariant (final (flush cseq d))"
  by (auto simp add: flush_def seqInvariant_def split: option.split)

lemma submitNormalized_queueState [simp]:
  "queueState (final (submitNormalized data callback d)) = queueState d"
  unfolding submitNormalized_def
  by (rule queueState_andThen)
    (simp, auto simp add: queueState_def Let_def split: option.splits)

lemma submitPresence_queueState [simp]:
  "queueState (final (submitPresence data callback d)) = queueState d"
  by (simp add: submitPresence_def split: option.split) (simp add: queueState_def)

lemma seqInvariant_alt:
  "seqInvariant d = (case queueState d of None \<Rightarrow> True | Some (i, s) \<Rightarrow> (s = 0) = (i = None))"
  by (simp add: seqInvariant_def queueState_def split: option.split)

lemma seqInvariant_effects [simp]:
  "seqInvariant (d\<lparr>effects := x\<rparr>) = seqInvariant d"
  by (simp add: seqInvariant_def)

lemma callEach_seqInvariant [simp]:
  "seqInvariant (snd (callEach callbacks err d)) = seqInvariant d"
  by (simp add: callEach_def)

lemma emitNothingPending_seqInvariant [simp]:
  "seqInvariant (emitNothingPending d) = seqInvariant d"
  by (simp add: emitNothingPending_def)

lemma seqInvariant_andThen:
  assumes "seqInvariant (final m)"
    and "\<And>x s. seqInvariant s \<Longrightarrow> seqInvariant (final (f x s))"
  shows "seqInvariant (final (andThen m f))"
  using assms by (cases m) (simp_all add: andThen_def)

lemma handleAck_seqInvariant:
  assumes "cseq \<noteq> 0" and "seqInvariant d"
  shows "seqInvariant (final (handleAck err msg cseq d))"
proof (cases "presence d")
  case None
  with assms(2) show ?thesis by (simp add: handleAck_def)
next
  case (Some ps)
  show ?thesis
  proof (cases "inflightSeq ps = e_seq msg")
    case False
    with Some assms(2) show ?thesis by (simp add: handleAck_def)
  next
    case True
    let ?d1 = "d\<lparr>presence := Some (ps\<lparr>inflight := None, inflightSeq := 0\<rparr>)\<rparr>"
    let ?r = "case inflight ps of None \<Rightarrow> (False, ?d1) | Some cbs \<Rightarrow> callEach cbs err ?d1"
    let ?d3 = "case err of
                 None \<Rightarrow> snd ?r
               | Some e \<Rightarrow>
                   if \<not> fst ?r then (snd ?r)\<lparr>effects := effects (snd ?r) @ [EmitError e]\<rparr>
                   else snd ?r"
    have d1: "seqInvariant ?d1" by (simp add: seqInvariant_def)
    then have "seqInvariant (snd ?r)" by (simp split: option.split)
    then have d3: "seqInvariant ?d3" by (simp split: option.split)
    have eq: "handleAck err msg cseq d =
        andThen (flush cseq ?d3) (\<lambda>u d4. Returns () (emitNothingPending d4))"
      using Some True by (simp add: handleAck_def Let_def split_beta)
    show ?thesis
      unfolding eq
      by (rule seqInvariant_andThen) (simp_all add: flush_seqInvariant [OF assms(1) d3])
  qed
qed

lemma answerRequest_seqInvariant:
  assumes "cseq \<noteq> 0" and "seqInvariant d"
  shows "seqInvariant (final (answerRequest msg cseq d))"
proof -
  have "\<And>ps. presence d = Some ps \<Longrightarrow>
      seqInvariant (d\<lparr>presence := Some (ps\<lparr>pending := Some []\<rparr>)\<rparr>)"
    using assms(2) by (simp add: seqInvariant_def)
  then show ?thesis
    using assms by (simp add: answerRequest_def flush_seqInvariant split: option.split)
qed

lemma acceptReceived_queueState [simp]:
  "queueState (final (acceptReceived src msg now d)) = queueState d"
proof (cases "presence d")
  case None
  then show ?thesis by (simp add: acceptReceived_def)
next
  case (Some ps)
  let ?d2 = "d\<lparr>presence := Some (ps\<lparr>received := AList.update src msg (received ps)\<rparr>)\<rparr>"
  have q2: "queueState ?d2 = queueState d" using Some by (simp add: queueState_def)
  have q3: "queueState (?d2\<lparr>effects := effects ?d2 @ [Fetch]\<rparr>) = queueState d"
    using Some by (simp add: queueState_def)
  have a: "queueState (final (andThen (setPresence src None True (markProcessed src now ?d2))
                     (\<lambda>changed d3. Returns () d3))) = queueState d"
    by (rule queueState_andThen) (simp_all add: q2)
  have b: "queueState (final (andThen (processReceivedPresence src True now ?d2)
                            (\<lambda>changed d3. Returns () d3))) = queueState d"
    by (rule queueState_andThen) (simp_all add: q2)
  show ?thesis
    using Some a b q3
    by (simp add: acceptReceived_def Let_def split: option.split)
qed

lemma handlePresence_seqInvariant:
  assumes "cseq \<noteq> 0" and "seqInvariant d"
  shows "seqInvariant (final (handlePresence err msg cseq now d))"
proof -
  have peer: "\<And>src. seqInvariant (final (handlePeer src msg cseq now d))"
    unfolding handlePeer_def
    by (rule seqInvariant_andThen)
      (simp_all add: answerRequest_seqInvariant [OF assms], simp add: seqInvariant_alt)
  show ?thesis
    using assms peer
    by (simp add: handlePresence_def handleAck_seqInvariant split: option.split)
qed

lemma pause_seqInvariant:
  assumes "seqInvariant d"
  shows "seqInvariant (final (pause d))"
proof (cases "presence d")
  case None
  with assms show ?thesis by (simp add: pause_def)
next
  case (Some ps)
  let ?ps1 = "case inflight ps of
                   Some batch \<Rightarrow>
                     ps\<lparr>pending := (case pending ps of
                                      Some q \<Rightarrow> Some (batch @ q)
                                    | None \<Rightarrow> Some batch),
                        inflight := None, inflightSeq := 0\<rparr>
                 | None \<Rightarrow>
                     if pending ps = None \<and> map_of (current ps) [] \<noteq> None
                     then ps\<lparr>pending := Some []\<rparr> else ps"
  let ?ps2 = "?ps1\<lparr>received := [], requestReply := True\<rparr>"
  let ?d1 = "d\<lparr>presence := Some ?ps2\<rparr>"
  have i: "seqInvariant ?d1"
    using assms Some by (simp add: seqInvariant_def split: option.split)
  have eq: "pause d =
      andThen (pauseEach (map fst (current ?ps2)) [] ?d1) (\<lambda>changedSrcList d2.
               Returns () (emitPresence changedSrcList False d2))"
    using Some by (simp add: pause_def Let_def)
  show ?thesis
    unfolding eq
    by (rule seqInvariant_andThen) (use i in \<open>simp_all add: seqInvariant_alt\<close>)
qed

lemma hardRollbackPresence_seqInvariant:
  "seqInvariant (final (hardRollbackPresence d))"
proof (cases "presence d")
  case None
  then show ?thesis by (simp add: hardRollbackPresence_def seqInvariant_def)
next
  case (Some ps)
  let ?ps1 = "ps\<lparr>inflight := None, inflightSeq := 0, pending := None,
                       cachedOps := [], received := [], requestReply := True\<rparr>"
  let ?d1 = "d\<lparr>presence := Some ?ps1\<rparr>"
  have i: "seqInvariant ?d1" by (simp add: seqInvariant_def)
  have eq: "hardRollbackPresence d =
      andThen (hardRollbackEach (map fst (current ?ps1)) [] ?d1) (\<lambda>changedSrcList d2.
        Returns ((case inflight ps of None \<Rightarrow> [] | Some batch \<Rightarrow> [batch]) @
                 (case pending ps of None \<Rightarrow> [] | Some batch \<Rightarrow> [batch]))
          (emitPresence changedSrcList False d2))"
    using Some by (simp add: hardRollbackPresence_def Let_def)
  show ?thesis
    unfolding eq
    by (rule seqInvariant_andThen) (use i in \<open>simp_all add: seqInvariant_alt\<close>)
qed

lemma runTask_seqInvariant:
  "cseq \<noteq> 0 \<Longrightarrow> seqInvariant d \<Longrightarrow> seqInvariant (final (runTask cseq t d))"
  by (cases t) (simp_all add: runTask_def report_def flush_seqInvariant split: option.split)

lemma perform_seqInvariant:
  assumes "seqInvariant d" and "seqNonzero c"
  shows "seqInvariant (perform c d)"
proof (cases c)
  case (HandlePresence err msg cseq now)
  with assms show ?thesis by (simp add: handlePresence_seqInvariant)
next
  case Pause
  with assms show ?thesis by (simp add: pause_seqInvariant)
next
  case (Flush cseq)
  with assms show ?thesis by (simp add: flush_seqInvariant)
next
  case HardRollbackPresence
  then show ?thesis by (simp add: hardRollbackPresence_seqInvariant)
next
  case (RunTask cseq t)
  with assms show ?thesis by (simp add: runTask_seqInvariant)
qed (use assms(1) in \<open>simp_all add: seqInvariant_alt\<close>)

text \<open>
  C8. \<open>inflightSeq\<close> is 0 exactly when \<open>inflight\<close> is absent: this holds of the initial
  presence state, and every call of the module (submission, flush, a handled message,
  be it an acknowledgment or a peer's, reconciliation, the transformation through a
  local operation, caching, pause, destroy, hard rollback, and the tasks the module
  schedules) leaves it true if it was true, provided the sequence counter of the
  connection read by a flush is not 0; so it holds after every sequence of such calls.
\<close>

theorem inflightSeq_invariant:
  "seqInvariant (d0\<lparr>presence := Some initializePresence\<rparr>) \<and>
   (seqInvariant d \<and> seqNonzero c \<longrightarrow> seqInvariant (perform c d)) \<and>
   (seqInvariant d \<and> list_all seqNonzero cs \<longrightarrow> seqInvariant (foldl (\<lambda>s c. perform c s) d cs))"
proof (intro conjI impI)
  show "seqInvariant (d0\<lparr>presence := Some initializePresence\<rparr>)"
    by (simp add: seqInvariant_def initializePresence_def)
  show "seqInvariant (perform c d)" if "seqInvariant d \<and> seqNonzero c"
    using that by (simp add: perform_seqInvariant)
  show "seqInvariant (foldl (\<lambda>s c. perform c s) d cs)"
    if "seqInvariant d \<and> list_all seqNonzero cs"
    using that by (induction cs arbitrary: d) (simp_all add: perform_seqInvariant)
qed

theorem inflightSeq_invariant_witness:
  "seqInvariant (exampleDoc\<lparr>presence := Some initializePresence\<rparr>) \<and>
   seqInvariant waitingDoc \<and> seqNonzero (Flush 4 :: (nat, nat, nat) call) \<and>
   seqInvariant (perform (Flush 4) waitingDoc) \<and>
   map_option (\<lambda>ps. (inflight ps, inflightSeq ps)) (presence (perform (Flush 4) waitingDoc)) =
     Some (Some [7], 4) \<and>
   seqInvariant (foldl (\<lambda>s c. perform c s) waitingDoc
     [Flush 4,
      HandlePresence None
        \<lparr> e_src = None, e_seq = 4, e_v = None, e_p = None, e_r = False, processedAt = None \<rparr>
        5 1000,
      Pause, HardRollbackPresence])"
proof -
  have w: "seqInvariant waitingDoc"
    by (simp add: seqInvariant_def waitingDoc_def exampleDoc_def initializePresence_def)
  have f: "map_option (\<lambda>ps. (inflight ps, inflightSeq ps))
      (presence (perform (Flush 4) waitingDoc)) = Some (Some [7], 4)"
    by (simp add: flush_def waitingDoc_def exampleDoc_def initializePresence_def)
  show ?thesis
    using w f
      inflightSeq_invariant [of exampleDoc waitingDoc "Flush 4"
        "[Flush 4,
          HandlePresence None
            \<lparr> e_src = None, e_seq = 4, e_v = None, e_p = None, e_r = False,
              processedAt = None \<rparr> 5 1000,
          Pause, HardRollbackPresence]"]
    by simp
qed

end
